theory Spec2Isabelle
  imports Complex_Main "HOL-Library.Sublist" "HOL-Library.AList" "HOL-Library.Char_ord" "HOL-Library.List_Lexorder"
begin

chapter \<open>The embedding\<close>

section \<open>Python strings\<close>

text \<open>
  A Python \<open>str\<close> is modelled as a \<open>string\<close>, one \<open>char\<close> per code point; the
  embedding covers text whose code points are below 256, and treats as letters and
  whitespace the ASCII ones only.
\<close>

text \<open>\<open>a in b\<close> on strings: \<open>a\<close> occurs in \<open>b\<close> as a contiguous substring.\<close>

fun py_in :: "string \<Rightarrow> string \<Rightarrow> bool" where
  "py_in a [] = (a = [])"
| "py_in a (c # cs) = (prefix a (c # cs) \<or> py_in a cs)"

text \<open>\<open>s.split(c)\<close> for a separator of one character.\<close>

fun split_on :: "char \<Rightarrow> string \<Rightarrow> string list" where
  "split_on c [] = [[]]"
| "split_on c (x # xs) =
     (if x = c then [] # split_on c xs
      else (case split_on c xs of
              [] \<Rightarrow> [[x]]
            | w # ws \<Rightarrow> (x # w) # ws))"

section \<open>The file tree\<close>

text \<open>
  A path is the list of its components below the base directory of the server, so
  \<open>[]\<close> is the base directory itself. \<open>pjoin p s\<close> is pathlib's \<open>p / s\<close> for a relative
  \<open>s\<close>: the string is cut at every slash, and empty components and \<open>.\<close> are dropped.
  An absolute \<open>s\<close> and the component \<open>..\<close> are not interpreted.
\<close>

type_synonym path = "string list"

definition parts :: "string \<Rightarrow> path" where
  "parts s = filter (\<lambda>w. w \<noteq> [] \<and> w \<noteq> ''.'') (split_on CHR ''/'' s)"

definition pjoin :: "path \<Rightarrow> string \<Rightarrow> path" where
  "pjoin p s = p @ parts s"

definition base_dir :: path where
  "base_dir = []"

text \<open>\<open>Path.name\<close>: the final component, empty for the base directory.\<close>

definition name_of :: "path \<Rightarrow> string" where
  "name_of p = (if p = [] then [] else last p)"

text \<open>
  The file tree is the list of its entries in directory-listing order, each a path
  with what is there: a directory, a file holding text, or a file whose bytes are not
  valid UTF-8. The base directory always exists.
\<close>

datatype node = Dir | TextFile string | BinFile

type_synonym fs = "(path \<times> node) list"

text \<open>The exceptions the modelled code can meet.\<close>

datatype py_error =
  FileNotFound | FileExists | IsADirectory | NotADirectory | UnicodeDecode
  | KeyError | TypeError | AttributeError

definition lookup :: "fs \<Rightarrow> path \<Rightarrow> node option" where
  "lookup t p = (if p = [] then Some Dir else map_of t p)"

definition path_exists :: "fs \<Rightarrow> path \<Rightarrow> bool" where
  "path_exists t p = (lookup t p \<noteq> None)"

definition is_dir :: "fs \<Rightarrow> path \<Rightarrow> bool" where
  "is_dir t p = (lookup t p = Some Dir)"

definition is_file :: "fs \<Rightarrow> path \<Rightarrow> bool" where
  "is_file t p = (path_exists t p \<and> \<not> is_dir t p)"

text \<open>\<open>Path.read_text(encoding='utf-8')\<close>.\<close>

definition read_text :: "fs \<Rightarrow> path \<Rightarrow> py_error + string" where
  "read_text t p =
     (case lookup t p of
        None \<Rightarrow> Inl FileNotFound
      | Some Dir \<Rightarrow> Inl IsADirectory
      | Some BinFile \<Rightarrow> Inl UnicodeDecode
      | Some (TextFile s) \<Rightarrow> Inr s)"

text \<open>\<open>Path.iterdir()\<close>: the entries directly inside \<open>d\<close>, in listing order.\<close>

definition iterdir :: "fs \<Rightarrow> path \<Rightarrow> path list" where
  "iterdir t d = [p. (p, n) \<leftarrow> t, p \<noteq> [] \<and> butlast p = d]"

text \<open>
  \<open>Path.rglob('*.md')\<close>: every entry below \<open>d\<close>, at any depth, whose name ends in
  \<open>.md\<close>. Directories so named are yielded too, as pathlib does.
\<close>

definition rglob_md :: "fs \<Rightarrow> path \<Rightarrow> path list" where
  "rglob_md t d = [p. (p, n) \<leftarrow> t, strict_prefix d p \<and> suffix ''.md'' (name_of p)]"

text \<open>
  \<open>Path.mkdir(parents=True, exist_ok=...)\<close>: an existing path is accepted only when
  it is a directory and \<open>exist_ok\<close> is set; the call fails, creating nothing, when an
  ancestor is a file; otherwise every missing ancestor and the path itself become
  directories.
\<close>

definition mkdir_parents :: "fs \<Rightarrow> path \<Rightarrow> bool \<Rightarrow> py_error + fs" where
  "mkdir_parents t p exist_ok =
     (if path_exists t p then (if exist_ok \<and> is_dir t p then Inr t else Inl FileExists)
      else if list_ex (is_file t) (prefixes p) then Inl NotADirectory
      else Inr (t @ [(q, Dir). q \<leftarrow> prefixes p, \<not> path_exists t q]))"

text \<open>
  \<open>Path.write_text\<close>: the parent must be a directory and the path must not be one;
  an existing file keeps its place in the listing and gets the new text.
\<close>

definition write_text :: "fs \<Rightarrow> path \<Rightarrow> string \<Rightarrow> py_error + fs" where
  "write_text t p s =
     (if p = [] \<or> is_dir t p then Inl IsADirectory
      else if \<not> path_exists t (butlast p) then Inl FileNotFound
      else if \<not> is_dir t (butlast p) then Inl NotADirectory
      else Inr (AList.update p (TextFile s) t))"

text \<open>\<open>Path.unlink()\<close>.\<close>

definition unlink :: "fs \<Rightarrow> path \<Rightarrow> py_error + fs" where
  "unlink t p =
     (if \<not> path_exists t p then Inl FileNotFound
      else if is_dir t p then Inl IsADirectory
      else Inr (filter (\<lambda>(q, n). q \<noteq> p) t))"

section \<open>WIP limits\<close>

text \<open>
  The WIP configuration as \<open>load_wip_config\<close> returns it: \<open>wip_limits\<close> maps a status
  to an integer or to null, and the two entries of \<open>wip_warnings\<close> may be absent. The
  warning threshold is a Python float; the embedding computes with it as an exact
  rational.
\<close>

record wip_config =
  wip_limits :: "(string \<times> int option) list"
  block_on_limit :: "bool option"
  warning_threshold :: "rat option"

text \<open>\<open>wip_limits.get(status)\<close>: \<open>None\<close> for a missing key and for a null limit alike.\<close>

definition limit_for :: "wip_config \<Rightarrow> string \<Rightarrow> int option" where
  "limit_for cfg status =
     (case map_of (wip_limits cfg) status of
        None \<Rightarrow> None
      | Some None \<Rightarrow> None
      | Some (Some l) \<Rightarrow> Some l)"

text \<open>
  \<open>wip_warnings.get('block_on_limit', False)\<close> and
  \<open>wip_warnings.get('warning_threshold', 0.8)\<close>.
\<close>

definition get_block_on_limit :: "wip_config \<Rightarrow> bool" where
  "get_block_on_limit cfg = (case block_on_limit cfg of None \<Rightarrow> False | Some b \<Rightarrow> b)"

definition get_warning_threshold :: "wip_config \<Rightarrow> rat" where
  "get_warning_threshold cfg = (case warning_threshold cfg of None \<Rightarrow> 8 / 10 | Some w \<Rightarrow> w)"

text \<open>The result tuple is \<open>(allowed, current_count, limit, is_warning)\<close>.\<close>

definition check_wip_limit ::
  "wip_config \<Rightarrow> fs \<Rightarrow> string \<Rightarrow> string \<Rightarrow> bool \<times> int \<times> int option \<times> bool" where
  "check_wip_limit cfg t project_id status =
     (case limit_for cfg status of
        None \<Rightarrow> (True, 0, None, False)
      | Some limit \<Rightarrow>
          (let project_path = pjoin base_dir project_id in
           if \<not> path_exists t project_path then (True, 0, Some limit, False)
           else
             (let status_path = pjoin project_path status in
              if \<not> path_exists t status_path then (True, 0, Some limit, False)
              else
                (let current_count =
                       int (length [p \<leftarrow> rglob_md t status_path. name_of p \<noteq> ''README.md'']);
                     block_on_limit = get_block_on_limit cfg;
                     warning_threshold = get_warning_threshold cfg;
                     is_warning = (of_int limit * warning_threshold \<le> of_int current_count);
                     is_blocked = (block_on_limit \<and> limit \<le> current_count);
                     allowed = (\<not> is_blocked)
                 in (allowed, current_count, Some limit, is_warning)))))"

text \<open>
  The count the specification speaks of: how many entries lie below a status folder,
  at any depth, with a name ending in \<open>.md\<close> other than \<open>README.md\<close>.
\<close>

definition task_files_under :: "fs \<Rightarrow> path \<Rightarrow> path set" where
  "task_files_under t d =
     Set.filter (\<lambda>p. strict_prefix d p \<and> suffix ''.md'' (name_of p) \<and> name_of p \<noteq> ''README.md'')
       (fst ` set t)"

definition task_count :: "fs \<Rightarrow> path \<Rightarrow> int" where
  "task_count t d = int (card (task_files_under t d))"




text \<open>
  The configuration \<open>load_wip_config\<close> falls back to, and a project that keeps its
  running tasks in \<open>inprogress\<close>.
\<close>

definition default_config :: wip_config where
  "default_config =
     \<lparr>wip_limits =
        [(''backlog'', None), (''progress'', Some 5), (''review'', Some 3),
         (''testing'', Some 4), (''done'', None)],
      block_on_limit = None,
      warning_threshold = None\<rparr>"

definition two_in_inprogress :: fs where
  "two_in_inprogress =
     [([''proj-1''], Dir),
      ([''proj-1'', ''inprogress''], Dir),
      ([''proj-1'', ''inprogress'', ''default-dev''], Dir),
      ([''proj-1'', ''inprogress'', ''t1.md''], TextFile ''one''),
      ([''proj-1'', ''inprogress'', ''default-dev'', ''t2.md''], TextFile ''two'')]"

section \<open>Cumulative-flow snapshots\<close>

text \<open>
  A snapshot as \<open>take_cfd_snapshot\<close> builds it: the day, the full timestamp and the
  task count of each of the five states (the key \<open>done\<close> is the field \<open>done_count\<close>).
  Dates are compared as Python compares strings, code point by code point.
\<close>

record snapshot =
  date :: string
  timestamp :: string
  backlog :: int
  progress :: int
  review :: int
  testing :: int
  done_count :: int

text \<open>The content of \<open>cfd-data.json\<close>: the history of each project.\<close>

type_synonym cfd_data = "string \<rightharpoonup> snapshot list"

text \<open>\<open>xs.index(x)\<close>, for an \<open>x\<close> that occurs in \<open>xs\<close>.\<close>

definition index_of :: "'a list \<Rightarrow> 'a \<Rightarrow> nat" where
  "index_of xs x = length (takeWhile (\<lambda>y. y \<noteq> x) xs)"

text \<open>The history of a project, empty when the project has no key yet.\<close>

definition history_of :: "cfd_data \<Rightarrow> string \<Rightarrow> snapshot list" where
  "history_of cfd project_id = (case cfd project_id of None \<Rightarrow> [] | Some h \<Rightarrow> h)"

text \<open>
  The first half of \<open>store_cfd_snapshot\<close>: the snapshot takes the place of the first
  entry of its date, or is appended when no entry has that date.
\<close>

definition put_snapshot :: "snapshot list \<Rightarrow> snapshot \<Rightarrow> snapshot list" where
  "put_snapshot history snap =
     (let today = date snap;
          existing = filter (\<lambda>s. date s = today) history
      in if existing \<noteq> [] then history[index_of history (hd existing) := snap]
         else history @ [snap])"

text \<open>
  The second half: the stable sort by date and the cut to the last \<open>max_days\<close>
  entries.
\<close>

definition store_history :: "snapshot list \<Rightarrow> snapshot \<Rightarrow> snapshot list" where
  "store_history history snap =
     (let history2 = sort_key date (put_snapshot history snap);
          max_days = 90
      in if length history2 > max_days then drop (length history2 - max_days) history2
         else history2)"

text \<open>
  \<open>store_cfd_snapshot\<close> returns \<open>True\<close> whether or not the file could be saved; the
  embedding takes the save to succeed.
\<close>

definition store_cfd_snapshot :: "cfd_data \<Rightarrow> string \<Rightarrow> snapshot \<Rightarrow> bool \<times> cfd_data" where
  "store_cfd_snapshot cfd project_id snap =
     (True, cfd(project_id \<mapsto> store_history (history_of cfd project_id) snap))"

text \<open>Example data: a snapshot of a given day, and the ninety days from January to March.\<close>

definition two_digits :: "nat \<Rightarrow> string" where
  "two_digits n = [char_of (48 + n div 10), char_of (48 + n mod 10)]"

definition snap_on :: "string \<Rightarrow> int \<Rightarrow> snapshot" where
  "snap_on d n =
     \<lparr>date = d, timestamp = d @ ''T00:00:00+00:00'',
      backlog = n, progress = 0, review = 0, testing = 0, done_count = 0\<rparr>"

definition ninety_days :: "string list" where
  "ninety_days =
     map (\<lambda>n. ''2025-01-'' @ two_digits n) [1..<32]
     @ map (\<lambda>n. ''2025-02-'' @ two_digits n) [1..<29]
     @ map (\<lambda>n. ''2025-03-'' @ two_digits n) [1..<32]"

definition ninety_day_history :: "snapshot list" where
  "ninety_day_history = map (\<lambda>d. snap_on d 1) ninety_days"

definition ninety_day_cfd :: cfd_data where
  "ninety_day_cfd = [''P'' \<mapsto> ninety_day_history]"

definition early_snapshot :: snapshot where
  "early_snapshot = snap_on ''2024-12-31'' 3"

definition morning_snapshot :: snapshot where
  "morning_snapshot = snap_on ''2025-04-01'' 2"

definition evening_snapshot :: snapshot where
  "evening_snapshot = snap_on ''2025-04-01'' 6"

definition morning_cfd :: cfd_data where
  "morning_cfd = snd (store_cfd_snapshot Map.empty ''P'' morning_snapshot)"

section \<open>Creating a project\<close>

text \<open>
  The second component of the result of \<open>create_project\<close> is a message: a text the
  code builds itself, or the text of an operating-system error, which is kept as the
  error.
\<close>

datatype message = Text string | OsError py_error

text \<open>The request dictionary, read with \<open>project_data.get\<close>.\<close>

type_synonym project_data = "string \<rightharpoonup> string"

definition default_dev :: string where
  "default_dev = ''default-dev''"

definition columns :: "string list" where
  "columns = [''backlog'', ''inprogress'', ''review'', ''done'', ''testing'']"

text \<open>
  The loop over the columns. An error leaves the folders made so far in place, so the
  tree comes back with the error.
\<close>

fun make_columns :: "fs \<Rightarrow> path \<Rightarrow> string list \<Rightarrow> (py_error \<times> fs) + fs" where
  "make_columns t project_path [] = Inr t"
| "make_columns t project_path (col # cols) =
     (let col_path = pjoin project_path col in
      case mkdir_parents t col_path True of
        Inl e \<Rightarrow> Inl (e, t)
      | Inr t1 \<Rightarrow>
          (let dev_path = pjoin col_path default_dev in
           case mkdir_parents t1 dev_path True of
             Inl e \<Rightarrow> Inl (e, t1)
           | Inr t2 \<Rightarrow> make_columns t2 project_path cols))"

text \<open>
  \<open>create_project\<close>: the result pair \<open>(success, message)\<close> and the tree afterwards.
\<close>

definition create_project :: "fs \<Rightarrow> project_data \<Rightarrow> (bool \<times> message option) \<times> fs" where
  "create_project t project_data =
     (case project_data ''id'' of
        None \<Rightarrow> ((False, Some (Text ''Missing project ID'')), t)
      | Some project_id \<Rightarrow>
          if project_id = [] then ((False, Some (Text ''Missing project ID'')), t)
          else
            (let project_path = pjoin base_dir project_id in
             if path_exists t project_path then
               ((False, Some (Text (''Project '' @ project_id @ '' already exists''))), t)
             else
               (case mkdir_parents t project_path False of
                  Inl e \<Rightarrow> ((False, Some (OsError e)), t)
                | Inr t1 \<Rightarrow>
                    (let description =
                           (case project_data ''description'' of
                              None \<Rightarrow> ''Project '' @ project_id
                            | Some d \<Rightarrow> d);
                         readme_file = pjoin project_path ''README.md''
                     in case write_text t1 readme_file (''# '' @ description @ ''\<newline>'') of
                          Inl e \<Rightarrow> ((False, Some (OsError e)), t1)
                        | Inr t2 \<Rightarrow>
                            (case make_columns t2 project_path columns of
                               Inl (e, t3) \<Rightarrow> ((False, Some (OsError e)), t3)
                             | Inr t3 \<Rightarrow> ((True, None), t3))))))"


definition new_project :: project_data where
  "new_project = [''id'' \<mapsto> ''proj-1'']"

definition created_tree :: fs where
  "created_tree = snd (create_project [] new_project)"

section \<open>More of Python's strings\<close>

text \<open>
  The first occurrence of a separator: the text before it and the text after it.
\<close>

fun find_sep :: "string \<Rightarrow> string \<Rightarrow> (string \<times> string) option" where
  "find_sep sep [] = (if sep = [] then Some ([], []) else None)"
| "find_sep sep (c # cs) =
     (if prefix sep (c # cs) then Some ([], drop (length sep) (c # cs))
      else map_option (\<lambda>(before, after). (c # before, after)) (find_sep sep cs))"

text \<open>\<open>s.split(sep, maxsplit)\<close> for a non-empty separator.\<close>

fun split_max :: "string \<Rightarrow> nat \<Rightarrow> string \<Rightarrow> string list" where
  "split_max sep 0 s = [s]"
| "split_max sep (Suc n) s =
     (case find_sep sep s of
        None \<Rightarrow> [s]
      | Some (before, after) \<Rightarrow> before # split_max sep n after)"

text \<open>
  \<open>s.count(sep)\<close>, the number of non-overlapping occurrences from the left: no
  string has more occurrences than characters.
\<close>

definition count_str :: "string \<Rightarrow> string \<Rightarrow> nat" where
  "count_str sep s = length (split_max sep (length s) s) - 1"

text \<open>
  \<open>str.isspace\<close> on a code point below 256, \<open>s.strip()\<close> and \<open>s.strip(chars)\<close>.
\<close>

definition is_space :: "char \<Rightarrow> bool" where
  "is_space c = (c \<in> set [CHR 0x09, CHR 0x0A, CHR 0x0B, CHR 0x0C, CHR 0x0D, CHR 0x1C,
                            CHR 0x1D, CHR 0x1E, CHR 0x1F, CHR 0x20, CHR 0x85, CHR 0xA0])"

definition strip_where :: "(char \<Rightarrow> bool) \<Rightarrow> string \<Rightarrow> string" where
  "strip_where P s = rev (dropWhile P (rev (dropWhile P s)))"

definition py_strip :: "string \<Rightarrow> string" where
  "py_strip s = strip_where is_space s"

definition strip_chars :: "string \<Rightarrow> string \<Rightarrow> string" where
  "strip_chars chars s = strip_where (\<lambda>c. c \<in> set chars) s"

text \<open>
  \<open>s.lower()\<close> and \<open>s.title()\<close> on ASCII letters; other characters are left as they
  are and count as uncased. \<open>lower\<close> is only compared with ASCII words.
\<close>

definition is_upper :: "char \<Rightarrow> bool" where
  "is_upper c = (CHR ''A'' \<le> c \<and> c \<le> CHR ''Z'')"

definition is_lower :: "char \<Rightarrow> bool" where
  "is_lower c = (CHR ''a'' \<le> c \<and> c \<le> CHR ''z'')"

definition to_lower :: "char \<Rightarrow> char" where
  "to_lower c = (if is_upper c then char_of (of_char c + (32 :: nat)) else c)"

definition to_upper :: "char \<Rightarrow> char" where
  "to_upper c = (if is_lower c then char_of (of_char c - (32 :: nat)) else c)"

definition py_lower :: "string \<Rightarrow> string" where
  "py_lower s = map to_lower s"

fun title_from :: "bool \<Rightarrow> string \<Rightarrow> string" where
  "title_from previous_is_cased [] = []"
| "title_from previous_is_cased (c # cs) =
     (if previous_is_cased then to_lower c else to_upper c)
       # title_from (is_upper c \<or> is_lower c) cs"

definition py_title :: "string \<Rightarrow> string" where
  "py_title s = title_from False s"

text \<open>\<open>s.replace(a, b)\<close> for single characters.\<close>

definition replace_char :: "char \<Rightarrow> char \<Rightarrow> string \<Rightarrow> string" where
  "replace_char a b s = map (\<lambda>c. if c = a then b else c) s"

section \<open>Python values and dictionaries\<close>

text \<open>
  The values found in the JSON requests and in the task dictionaries: \<open>None\<close>,
  booleans, integers and strings. A dictionary is the list of its items in insertion
  order, read with \<open>get\<close>.
\<close>

datatype pyval = PNone | PBool bool | PInt int | PStr string

type_synonym pydict = "(string \<times> pyval) list"

definition dget :: "pydict \<Rightarrow> string \<Rightarrow> pyval" where
  "dget d k = (case map_of d k of None \<Rightarrow> PNone | Some v \<Rightarrow> v)"

definition dget_default :: "pydict \<Rightarrow> string \<Rightarrow> pyval \<Rightarrow> pyval" where
  "dget_default d k v0 = (case map_of d k of None \<Rightarrow> v0 | Some v \<Rightarrow> v)"

text \<open>Truth value, \<open>a or b\<close>, and the text an f-string gives for a value.\<close>

fun truthy :: "pyval \<Rightarrow> bool" where
  "truthy PNone = False"
| "truthy (PBool b) = b"
| "truthy (PInt n) = (n \<noteq> 0)"
| "truthy (PStr s) = (s \<noteq> [])"

definition py_or :: "pyval \<Rightarrow> pyval \<Rightarrow> pyval" where
  "py_or a b = (if truthy a then a else b)"

fun digits :: "nat \<Rightarrow> string" where
  "digits n = (if n < 10 then [char_of (48 + n)] else digits (n div 10) @ [char_of (48 + n mod 10)])"

fun py_str :: "pyval \<Rightarrow> string" where
  "py_str PNone = ''None''"
| "py_str (PBool b) = (if b then ''True'' else ''False'')"
| "py_str (PInt n) = (if n < 0 then ''-'' @ digits (nat (- n)) else digits (nat n))"
| "py_str (PStr s) = s"

section \<open>Reading a task file\<close>

text \<open>
  The head of \<open>parse_task_file\<close>: the text is cut into the YAML block and the
  Markdown body. A text that does not start with the delimiter, or that the split at
  the first two delimiters leaves in fewer than three parts, is body as a whole.
\<close>

definition split_frontmatter :: "string \<Rightarrow> string \<times> string" where
  "split_frontmatter content =
     (if prefix ''---'' content then
        (let parts = split_max ''---'' 2 content in
         if length parts \<ge> 3 then (py_strip (parts ! 1), py_strip (parts ! 2))
         else ([], content))
      else ([], content))"

text \<open>
  The loop over the lines of the YAML block: a line with a colon sets the key before
  the first colon to the value after it, stripped of blanks and then of quotes.
\<close>

type_synonym metadata = "(string \<times> string) list"

definition parse_line :: "string \<Rightarrow> metadata \<Rightarrow> metadata" where
  "parse_line line0 metadata =
     (let line = py_strip line0 in
      if CHR '':'' \<in> set line then
        (let kv = split_max '':'' 1 line;
             key = py_strip (kv ! 0);
             value = strip_chars [CHR 0x27, CHR 0x22] (py_strip (kv ! 1))
         in AList.update key value metadata)
      else metadata)"

definition parse_yaml :: "string \<Rightarrow> metadata" where
  "parse_yaml yaml_content =
     (if yaml_content \<noteq> [] then fold parse_line (split_on CHR 0x0A yaml_content) []
      else [])"

text \<open>\<open>metadata.get(key)\<close> and \<open>metadata.get(key, default)\<close>.\<close>

definition mget :: "metadata \<Rightarrow> string \<Rightarrow> pyval" where
  "mget m k = (case map_of m k of None \<Rightarrow> PNone | Some v \<Rightarrow> PStr v)"

definition mget_default :: "metadata \<Rightarrow> string \<Rightarrow> string \<Rightarrow> string" where
  "mget_default m k v0 = (case map_of m k of None \<Rightarrow> v0 | Some v \<Rightarrow> v)"


text \<open>
  The task dictionary. Left out are the keys computed from the clock with floating
  point (\<open>cycle_time_days\<close>, \<open>age_days\<close>, \<open>blocked_time_hours\<close>, \<open>blocked_time_days\<close>),
  each computed under its own exception handler, and \<open>file_path\<close>; no modelled
  function reads them.
\<close>

definition build_task :: "string \<Rightarrow> string \<Rightarrow> pydict" where
  "build_task task_id content =
     (let yaml_content = fst (split_frontmatter content);
          markdown_content = snd (split_frontmatter content);
          metadata = parse_yaml yaml_content;
          blocked = (py_lower (mget_default metadata ''blocked'' ''false'')
                       \<in> set [''true'', ''yes'', ''1'']);
          blocked_at = mget_default metadata ''blocked_at'' [];
          blocked_reason = mget_default metadata ''blocked_reason'' [];
          unblocked_at = mget_default metadata ''unblocked_at'' [];
          is_currently_blocked = (blocked \<and> unblocked_at = [])
      in [(''id'', PStr task_id),
          (''title'', PStr (mget_default metadata ''title''
                              (py_title (replace_char CHR ''-'' CHR '' '' task_id)))),
          (''content'', PStr markdown_content),
          (''fullContent'', PStr content),
          (''timeEstimate'', PStr (mget_default metadata ''estimate'' ''0h'')),
          (''timeSpent'', PStr (mget_default metadata ''spent_time'' ''0h'')),
          (''priority'', PStr (mget_default metadata ''priority'' ''medium'')),
          (''developer'', mget metadata ''developer''),
          (''assignee'', mget metadata ''developer''),
          (''status'', PStr (mget_default metadata ''status'' ''backlog'')),
          (''created'', PStr (mget_default metadata ''created'' [])),
          (''created_at'', PStr (mget_default metadata ''created_at''
                                   (mget_default metadata ''created'' []))),
          (''started_at'', PStr (mget_default metadata ''started_at'' [])),
          (''done_at'', PStr (mget_default metadata ''done_at'' [])),
          (''blocked'', PBool blocked),
          (''blocked_at'', PStr blocked_at),
          (''blocked_reason'', PStr blocked_reason),
          (''unblocked_at'', PStr unblocked_at),
          (''is_currently_blocked'', PBool is_currently_blocked)])"






section \<open>Locating a task\<close>

text \<open>
  What a function leaves behind: it returned a boolean or it raised. The tree after
  the call comes beside it.
\<close>

datatype outcome = Returned bool | Raised py_error

text \<open>\<open>project_path / value\<close>, a \<open>TypeError\<close> when the value is not a string.\<close>

definition pjoin_val :: "path \<Rightarrow> pyval \<Rightarrow> py_error + path" where
  "pjoin_val p v = (case v of PStr s \<Rightarrow> Inr (pjoin p s) | _ \<Rightarrow> Inl TypeError)"

text \<open>The file name \<open>f"{task_id}.md"\<close>.\<close>

definition task_file_name :: "pyval \<Rightarrow> string" where
  "task_file_name task_id = py_str task_id @ ''.md''"

text \<open>
  The check made on a file that exists under the wanted name: its text is read, and
  the task ID must occur in the text or in the file name. A failed read and the
  \<open>TypeError\<close> of an ID that is not a string are caught, and the file is passed over.
\<close>

definition verified :: "fs \<Rightarrow> path \<Rightarrow> pyval \<Rightarrow> bool" where
  "verified t task_file task_id =
     (case read_text t task_file of
        Inl e \<Rightarrow> False
      | Inr file_content \<Rightarrow>
          (case task_id of
             PStr s \<Rightarrow> py_in s file_content \<or> py_in s (name_of task_file)
           | _ \<Rightarrow> False))"

text \<open>The loop over the entries of a status folder, the developer subfolders.\<close>

fun search_dev_folders :: "fs \<Rightarrow> pyval \<Rightarrow> path list \<Rightarrow> (path \<times> string) option" where
  "search_dev_folders t task_id [] = None"
| "search_dev_folders t task_id (dev_folder # rest) =
     (if is_dir t dev_folder \<and> \<not> prefix ''.'' (name_of dev_folder) then
        (let task_file = pjoin dev_folder (task_file_name task_id) in
         if path_exists t task_file \<and> verified t task_file task_id
         then Some (task_file, name_of dev_folder)
         else search_dev_folders t task_id rest)
      else search_dev_folders t task_id rest)"

text \<open>
  The loop over the status folders. The result is the current file, its folder and
  its developer. \<open>iterdir\<close> on a status folder that is a file raises.
\<close>

definition status_folders :: "string list" where
  "status_folders = [''backlog'', ''progress'', ''inprogress'', ''review'', ''testing'', ''done'']"

fun search_folders ::
  "fs \<Rightarrow> path \<Rightarrow> pyval \<Rightarrow> string list \<Rightarrow> py_error + (path \<times> string \<times> string option) option" where
  "search_folders t project_path task_id [] = Inr None"
| "search_folders t project_path task_id (folder # rest) =
     (let folder_path = pjoin project_path folder in
      if path_exists t folder_path then
        (let task_file = pjoin folder_path (task_file_name task_id) in
         if path_exists t task_file \<and> verified t task_file task_id
         then Inr (Some (task_file, folder, None))
         else if \<not> is_dir t folder_path then Inl NotADirectory
         else
           (case search_dev_folders t task_id (iterdir t folder_path) of
              Some (dev_file, developer) \<Rightarrow> Inr (Some (dev_file, folder, Some developer))
            | None \<Rightarrow> search_folders t project_path task_id rest))
      else search_folders t project_path task_id rest)"





section \<open>Writing a task file\<close>

text \<open>\<open>'\n'.join(lines)\<close>.\<close>

fun join_lines :: "string list \<Rightarrow> string" where
  "join_lines [] = []"
| "join_lines [l] = l"
| "join_lines (l # m # ls) = l @ CHR 0x0A # join_lines (m # ls)"

text \<open>
  \<open>simple_yaml_dump\<close> of \<open>update_task_file\<close>: items whose value is \<open>None\<close> are left out,
  and a string with a newline, a colon or a hash sign is put in single quotes.
\<close>

definition needs_quotes :: "string \<Rightarrow> bool" where
  "needs_quotes s = list_ex (\<lambda>c. c \<in> set s) [CHR 0x0A, CHR '':'', CHR ''#'']"

definition dump_line :: "string \<times> pyval \<Rightarrow> string" where
  "dump_line kv =
     (case snd kv of
        PStr s \<Rightarrow>
          (if needs_quotes s then fst kv @ '': '' @ [CHR 0x27] @ s @ [CHR 0x27]
           else fst kv @ '': '' @ s)
      | v \<Rightarrow> fst kv @ '': '' @ py_str v)"

definition simple_yaml_dump :: "pydict \<Rightarrow> string" where
  "simple_yaml_dump data = join_lines (map dump_line (filter (\<lambda>kv. snd kv \<noteq> PNone) data))"


text \<open>The text of a task file: the block, a blank line, the body.\<close>

definition file_text :: "string \<Rightarrow> string \<Rightarrow> string" where
  "file_text yaml_content markdown_content =
     ''---\<newline>'' @ yaml_content @ ''\<newline>---\<newline>\<newline>'' @ markdown_content"

definition markdown_of :: "pydict \<Rightarrow> string" where
  "markdown_of task_data =
     py_str (dget_default task_data ''content'' (dget_default task_data ''fullContent'' (PStr [])))"

section \<open>Updating a task\<close>

text \<open>
  The new status and the new developer. The developer falls back to the current
  subfolder, then to an assignee that looks like a developer handle;
  \<open>assignee.startswith\<close> raises on a value that is not a string.
\<close>

definition new_status_of :: "pydict \<Rightarrow> pyval" where
  "new_status_of task_data =
     dget_default task_data ''status'' (dget_default task_data ''column'' (PStr ''backlog''))"

definition new_developer_of :: "pydict \<Rightarrow> string option \<Rightarrow> py_error + pyval" where
  "new_developer_of task_data current_developer =
     (let new_developer = dget task_data ''developer'' in
      if \<not> truthy new_developer \<and> current_developer \<noteq> None \<and> current_developer \<noteq> Some []
      then Inr (PStr (the current_developer))
      else if \<not> truthy new_developer then
        (let assignee = dget task_data ''assignee'' in
         if truthy assignee then
           (case assignee of
              PStr a \<Rightarrow>
                (if prefix ''dev-'' a \<or> prefix ''tech-'' a then Inr assignee
                 else Inr new_developer)
            | _ \<Rightarrow> Inl AttributeError)
         else Inr new_developer)
      else Inr new_developer)"

definition new_folder_path_of :: "path \<Rightarrow> pyval \<Rightarrow> pyval \<Rightarrow> py_error + path" where
  "new_folder_path_of project_path new_status new_developer =
     (case pjoin_val project_path new_status of
        Inl e \<Rightarrow> Inl e
      | Inr new_folder_path \<Rightarrow>
          (if truthy new_developer \<and> new_status \<in> set (map PStr status_folders)
           then pjoin_val new_folder_path new_developer
           else Inr new_folder_path))"

text \<open>
  The timestamps and the front matter of \<open>update_task_file\<close>, before the \<open>None\<close>
  values are removed. The clock is read once, as \<open>now\<close>.
\<close>

definition auto_started_at :: "string \<Rightarrow> pydict \<Rightarrow> pyval" where
  "auto_started_at now task_data =
     (let started_at = dget task_data ''started_at'' in
      if new_status_of task_data \<in> set [PStr ''progress'', PStr ''inprogress'']
         \<and> \<not> truthy started_at
      then PStr now else started_at)"

definition auto_done_at :: "string \<Rightarrow> pydict \<Rightarrow> pyval" where
  "auto_done_at now task_data =
     (let done_at = dget task_data ''done_at'' in
      if new_status_of task_data = PStr ''done'' \<and> \<not> truthy done_at
      then PStr now else done_at)"

definition update_frontmatter :: "string \<Rightarrow> pydict \<Rightarrow> pydict" where
  "update_frontmatter now task_data =
     [(''title'', dget_default task_data ''title'' (PStr [])),
      (''estimate'', dget_default task_data ''timeEstimate'' (PStr ''0h'')),
      (''spent_time'', dget_default task_data ''timeSpent'' (PStr ''0h'')),
      (''priority'', dget_default task_data ''priority'' (PStr ''medium'')),
      (''developer'', dget task_data ''developer''),
      (''status'', new_status_of task_data),
      (''created'', dget_default task_data ''created'' (PStr (take 10 now))),
      (''created_at'', py_or (dget task_data ''created_at'') (dget task_data ''created'')),
      (''started_at'', auto_started_at now task_data),
      (''done_at'', auto_done_at now task_data),
      (''blocked'', dget_default task_data ''blocked'' (PBool False)),
      (''blocked_at'', dget task_data ''blocked_at''),
      (''blocked_reason'', dget task_data ''blocked_reason''),
      (''unblocked_at'', dget task_data ''unblocked_at'')]"

definition update_file_content :: "string \<Rightarrow> pydict \<Rightarrow> string" where
  "update_file_content now task_data =
     file_text
       (simple_yaml_dump (filter (\<lambda>kv. snd kv \<noteq> PNone) (update_frontmatter now task_data)))
       (markdown_of task_data)"

text \<open>
  The check on a destination that exists and is not the current file: the update is
  abandoned when the file cannot be read, or when the task ID occurs neither in its
  text nor in its name.
\<close>

definition destination_refused :: "fs \<Rightarrow> path \<Rightarrow> pyval \<Rightarrow> bool" where
  "destination_refused t new_task_file task_id =
     (case read_text t new_task_file of
        Inl e \<Rightarrow> True
      | Inr existing_content \<Rightarrow>
          \<not> py_in (py_str task_id) existing_content
          \<and> (case task_id of
                PStr s \<Rightarrow> \<not> py_in s (name_of new_task_file)
              | _ \<Rightarrow> True))"

text \<open>
  The removal of the old file on a move: \<open>None\<close> when the update is abandoned, the
  tree without the file otherwise. A file that has vanished is passed over.
\<close>

definition remove_old_file :: "fs \<Rightarrow> path \<Rightarrow> pyval \<Rightarrow> fs option" where
  "remove_old_file t current_file task_id =
     (if path_exists t current_file then
        (case read_text t current_file of
           Inl e \<Rightarrow> None
         | Inr current_content \<Rightarrow>
             (case task_id of
                PStr s \<Rightarrow>
                  (if \<not> py_in s current_content \<and> \<not> py_in s (name_of current_file) then None
                   else (case unlink t current_file of Inl e \<Rightarrow> None | Inr t' \<Rightarrow> Some t'))
              | _ \<Rightarrow> None))
      else Some t)"

definition update_task_file :: "fs \<Rightarrow> string \<Rightarrow> string \<Rightarrow> pydict \<Rightarrow> outcome \<times> fs" where
  "update_task_file t now project_id task_data =
     (let project_path = pjoin base_dir project_id in
      if \<not> path_exists t project_path then (Returned False, t)
      else
        (case map_of task_data ''id'' of
           None \<Rightarrow> (Raised KeyError, t)
         | Some task_id \<Rightarrow>
             (case search_folders t project_path task_id status_folders of
                Inl e \<Rightarrow> (Raised e, t)
              | Inr None \<Rightarrow> (Returned False, t)
              | Inr (Some (current_file, current_folder, current_developer)) \<Rightarrow>
                  (case new_developer_of task_data current_developer of
                     Inl e \<Rightarrow> (Raised e, t)
                   | Inr new_developer \<Rightarrow>
                       (case new_folder_path_of project_path (new_status_of task_data)
                               new_developer of
                          Inl e \<Rightarrow> (Raised e, t)
                        | Inr new_folder_path \<Rightarrow>
                            (case mkdir_parents t new_folder_path True of
                               Inl e \<Rightarrow> (Raised e, t)
                             | Inr t1 \<Rightarrow>
                                 (let new_task_file =
                                        pjoin new_folder_path (task_file_name task_id)
                                  in
                                  if path_exists t1 new_task_file
                                     \<and> new_task_file \<noteq> current_file
                                     \<and> destination_refused t1 new_task_file task_id
                                  then (Returned False, t1)
                                  else
                                    (case (if new_task_file \<noteq> current_file
                                           then remove_old_file t1 current_file task_id
                                           else Some t1) of
                                       None \<Rightarrow> (Returned False, t1)
                                     | Some t2 \<Rightarrow>
                                         (case write_text t2 new_task_file
                                                 (update_file_content now task_data) of
                                            Inl e \<Rightarrow> (Returned False, t2)
                                          | Inr t3 \<Rightarrow> (Returned True, t3))))))))))"

section \<open>Creating and deleting a task\<close>









section \<open>Example trees and requests\<close>


text \<open>
  A project where the task \<open>t1\<close> sits in \<open>backlog\<close> and the place it is to move to
  holds a file whose text does not mention \<open>t1\<close>.
\<close>

definition other_task_text :: string where
  "other_task_text = ''---\<newline>title: Other work\<newline>---\<newline>\<newline>unrelated''"

definition collision_tree :: fs where
  "collision_tree =
     [([''proj-1''], Dir),
      ([''proj-1'', ''backlog''], Dir),
      ([''proj-1'', ''backlog'', ''t1.md''], TextFile ''---\<newline>title: Mine\<newline>---\<newline>\<newline>mine''),
      ([''proj-1'', ''progress''], Dir),
      ([''proj-1'', ''progress'', ''dev-alice''], Dir),
      ([''proj-1'', ''progress'', ''dev-alice'', ''t1.md''], TextFile other_task_text)]"

definition move_request :: pydict where
  "move_request =
     [(''id'', PStr ''t1''), (''title'', PStr ''Mine''), (''status'', PStr ''progress''),
      (''developer'', PStr ''dev-alice'')]"





section \<open>Counting the files of a task\<close>





section \<open>Parsing what was written\<close>

text \<open>
  The round trip the code performs when it blocks or unblocks a task: the file is
  parsed and the task dictionary is handed to \<open>update_task_file\<close>, which builds the
  new text of the file from it.
\<close>

definition round_trip :: "string \<Rightarrow> string \<Rightarrow> string \<Rightarrow> string" where
  "round_trip now task_id content = update_file_content now (build_task task_id content)"

text \<open>
  The fields of a task that hold text, and the text of a value. A text is canonical
  when it has no newline and no \<open>---\<close>, no quote at either end, and no blank at
  either end unless it contains a colon or a hash sign (and is therefore written in
  quotes).
\<close>

definition text_fields :: "string list" where
  "text_fields =
     [''title'', ''timeEstimate'', ''timeSpent'', ''priority'', ''developer'', ''status'',
      ''created'', ''created_at'', ''started_at'', ''done_at'', ''blocked_at'',
      ''blocked_reason'', ''unblocked_at'']"

definition field_text :: "pyval \<Rightarrow> string" where
  "field_text v = (case v of PStr s \<Rightarrow> s | _ \<Rightarrow> [])"

definition canonical :: "string \<Rightarrow> bool" where
  "canonical v =
     (CHR 0x0A \<notin> set v \<and> \<not> py_in ''---'' v
      \<and> strip_chars [CHR 0x27, CHR 0x22] v = v
      \<and> (py_strip v = v \<or> needs_quotes v))"

text \<open>
  A key is plain when it is not empty, has no colon, no newline and no \<open>---\<close>, and
  no blank at either end, as the keys of the front matter are.
\<close>

definition plain_key :: "string \<Rightarrow> bool" where
  "plain_key k =
     (k \<noteq> [] \<and> CHR '':'' \<notin> set k \<and> CHR 0x0A \<notin> set k \<and> \<not> py_in ''---'' k
      \<and> py_strip k = k)"

text \<open>
  Example texts: a finished task without \<open>done_at\<close>, a title with blanks inside its
  quotes, and a task whose values are all canonical.
\<close>

definition done_text :: string where
  "done_text = ''---\<newline>title: Ship it\<newline>status: done\<newline>---\<newline>\<newline>Body''"

definition padded_text :: string where
  "padded_text = ''---\<newline>title: \" padded \"\<newline>---\<newline>\<newline>Body''"

definition review_text :: string where
  "review_text =
     ''---\<newline>title: Fix: the bug\<newline>status: review\<newline>developer: dev-alice\<newline>blocked: yes\<newline>---\<newline>\<newline>Body''"

chapter \<open>Properties\<close>

section \<open>The WIP check\<close>




text \<open>
  C10. When the status has no limit (null or absent), or the project directory is
  missing, or the status folder is missing, \<open>check_wip_limit\<close> allows the move and
  reports the count 0, whatever the tree holds.
\<close>

theorem check_wip_limit_short_circuit:
  assumes "limit_for cfg status = None
           \<or> \<not> path_exists t (pjoin base_dir project_id)
           \<or> \<not> path_exists t (pjoin (pjoin base_dir project_id) status)"
  shows "fst (check_wip_limit cfg t project_id status) = True
         \<and> fst (snd (check_wip_limit cfg t project_id status)) = 0
         \<and> snd (snd (snd (check_wip_limit cfg t project_id status))) = False"
  using assms by (auto simp: check_wip_limit_def Let_def split: option.splits)

text \<open>
  The limit is configured for \<open>progress\<close> while the two tasks of the project are
  stored under \<open>inprogress\<close>: the reported count is 0.
\<close>

theorem check_wip_limit_short_circuit_witness:
  "limit_for default_config ''progress'' = Some 5
   \<and> \<not> path_exists two_in_inprogress (pjoin (pjoin base_dir ''proj-1'') ''progress'')
   \<and> task_count two_in_inprogress (pjoin (pjoin base_dir ''proj-1'') ''inprogress'') = 2
   \<and> check_wip_limit default_config two_in_inprogress ''proj-1'' ''progress''
       = (True, 0, Some 5, False)"
proof -
  have l: "limit_for default_config ''progress'' = Some 5" by code_simp
  have s: "\<not> path_exists two_in_inprogress (pjoin (pjoin base_dir ''proj-1'') ''progress'')"
    by code_simp
  have n: "task_count two_in_inprogress (pjoin (pjoin base_dir ''proj-1'') ''inprogress'') = 2"
    by code_simp
  have lim: "fst (snd (snd (check_wip_limit default_config two_in_inprogress ''proj-1'' ''progress'')))
      = Some 5"
    by code_simp
  from s have "limit_for default_config ''progress'' = None
      \<or> \<not> path_exists two_in_inprogress (pjoin base_dir ''proj-1'')
      \<or> \<not> path_exists two_in_inprogress (pjoin (pjoin base_dir ''proj-1'') ''progress'')"
    by simp
  from check_wip_limit_short_circuit [OF this] lim
  have "check_wip_limit default_config two_in_inprogress ''proj-1'' ''progress''
       = (True, 0, Some 5, False)"
    by (cases "check_wip_limit default_config two_in_inprogress ''proj-1'' ''progress''") auto
  with l s n show ?thesis by simp
qed

section \<open>Cumulative-flow history\<close>

lemma replace_first_by_date:
  assumes "distinct (map date h)" and "filter (\<lambda>s. date s = d) h \<noteq> []"
  shows "h[index_of h (hd (filter (\<lambda>s. date s = d) h)) := snap]
         = map (\<lambda>s. if date s = d then snap else s) h"
  using assms
proof (induction h)
  case Nil
  then show ?case by simp
next
  case (Cons x xs)
  show ?case
  proof (cases "date x = d")
    case True
    from Cons.prems True have "d \<notin> date ` set xs" by simp
    then have "\<forall>s \<in> set xs. date s \<noteq> d" by blast
    then have "map (\<lambda>s. if date s = d then snap else s) xs = xs"
      by (induction xs) auto
    with True show ?thesis by (simp add: index_of_def)
  next
    case False
    with Cons.prems have ne: "filter (\<lambda>s. date s = d) xs \<noteq> []" by simp
    then have "hd (filter (\<lambda>s. date s = d) xs) \<in> set (filter (\<lambda>s. date s = d) xs)"
      by (rule hd_in_set)
    then have "date (hd (filter (\<lambda>s. date s = d) xs)) = d" by simp
    with False have "x \<noteq> hd (filter (\<lambda>s. date s = d) xs)" by auto
    moreover have "xs[index_of xs (hd (filter (\<lambda>s. date s = d) xs)) := snap]
         = map (\<lambda>s. if date s = d then snap else s) xs"
      using Cons.IH Cons.prems ne by simp
    ultimately show ?thesis using False by (simp add: index_of_def)
  qed
qed

lemma store_history_alt:
  "store_history h snap =
     (let h2 = sort_key date (put_snapshot h snap)
      in if length h2 > 90 then drop (length h2 - 90) h2 else h2)"
  by (simp add: store_history_def Let_def)

lemma put_snapshot_set:
  assumes "distinct (map date h)"
  shows "set (put_snapshot h snap) = {s \<in> set h. date s \<noteq> date snap} \<union> {snap}"
proof (cases "filter (\<lambda>s. date s = date snap) h = []")
  case True
  then have "\<forall>s \<in> set h. date s \<noteq> date snap" by (simp add: filter_empty_conv)
  with True show ?thesis by (auto simp: put_snapshot_def)
next
  case False
  then obtain s0 where "s0 \<in> set h" "date s0 = date snap"
    by (auto simp: filter_empty_conv)
  then show ?thesis
    using False replace_first_by_date [OF assms False, of snap]
    by (auto simp: put_snapshot_def)
qed

lemma put_snapshot_distinct:
  assumes "distinct (map date h)"
  shows "distinct (map date (put_snapshot h snap))"
proof (cases "filter (\<lambda>s. date s = date snap) h = []")
  case True
  then have "\<forall>s \<in> set h. date s \<noteq> date snap" by (simp add: filter_empty_conv)
  with True assms show ?thesis by (auto simp: put_snapshot_def)
next
  case False
  have "map date (map (\<lambda>s. if date s = date snap then snap else s) h) = map date h"
    by (induction h) auto
  then have "map date (put_snapshot h snap) = map date h"
    using False replace_first_by_date [OF assms False, of snap]
    by (simp add: put_snapshot_def)
  with assms show ?thesis by (simp only:)
qed

lemma distinct_map_sort_key:
  "distinct (map f (sort_key f xs)) = distinct (map f xs)"
  by (induction xs) (simp_all add: distinct_insort_key)

lemma store_history_subset: "set (store_history h snap) \<subseteq> set (put_snapshot h snap)"
  by (auto simp: store_history_alt Let_def dest: in_set_dropD)

lemma store_history_sorted: "sorted (map date (store_history h snap))"
  by (simp add: store_history_alt Let_def sorted_wrt_drop drop_map [symmetric] del: drop_map)

lemma store_history_length: "length (store_history h snap) \<le> 90"
  by (simp add: store_history_alt Let_def)

lemma store_history_distinct:
  assumes "distinct (map date h)"
  shows "distinct (map date (store_history h snap))"
  using put_snapshot_distinct [OF assms, of snap]
  by (simp add: store_history_alt Let_def distinct_map_sort_key drop_map [symmetric] del: drop_map)

lemma store_history_keeps:
  assumes d: "distinct (map date h)"
    and few: "length (filter (\<lambda>s. date snap < date s) h) < 90"
  shows "snap \<in> set (store_history h snap)"
proof -
  let ?h2 = "sort_key date (put_snapshot h snap)"
  let ?k = "length ?h2 - 90"
  have set2: "set ?h2 = {s \<in> set h. date s \<noteq> date snap} \<union> {snap}"
    using put_snapshot_set [OF d] by simp
  have dist2: "distinct (map date ?h2)"
    using put_snapshot_distinct [OF d] by (simp add: distinct_map_sort_key)
  have sorted2: "sorted (map date ?h2)" by simp
  have in2: "snap \<in> set ?h2" unfolding set2 by simp
  show ?thesis
  proof (cases "length ?h2 > 90")
    case False
    then have "store_history h snap = ?h2" by (simp add: store_history_alt Let_def)
    then show ?thesis by (simp only: in2)
  next
    case True
    have res: "store_history h snap = drop ?k ?h2"
      using True by (simp add: store_history_alt Let_def)
    show ?thesis
    proof (rule ccontr)
      assume "snap \<notin> set (store_history h snap)"
      then have out: "snap \<notin> set (drop ?k ?h2)" unfolding res .
      have "set ?h2 = set (take ?k ?h2) \<union> set (drop ?k ?h2)"
        by (metis append_take_drop_id set_append)
      with in2 out have inn: "snap \<in> set (take ?k ?h2)" by blast
      have "sorted (map date (take ?k ?h2) @ map date (drop ?k ?h2))"
        using sorted2 by (simp only: map_append [symmetric] append_take_drop_id)
      then have le: "\<forall>y \<in> set (drop ?k ?h2). date snap \<le> date y"
        using inn by (auto simp: sorted_append)
      have inj: "inj_on date (set ?h2)"
        using dist2 by (simp add: distinct_map)
      have sub: "set (drop ?k ?h2) \<subseteq> set (filter (\<lambda>s. date snap < date s) h)"
      proof
        fix y assume y: "y \<in> set (drop ?k ?h2)"
        then have y2: "y \<in> set ?h2" by (rule in_set_dropD)
        have "y \<noteq> snap" using y out by auto
        then have "date y \<noteq> date snap"
          using inj y2 in2 by (auto dest: inj_onD)
        moreover have "date snap \<le> date y" using le y by simp
        ultimately have "date snap < date y" by simp
        moreover have "y \<in> set h" using y2 \<open>y \<noteq> snap\<close> set2 by auto
        ultimately show "y \<in> set (filter (\<lambda>s. date snap < date s) h)" by simp
      qed
      have "distinct (drop ?k ?h2)"
        using dist2 by (simp add: distinct_map)
      then have "card (set (drop ?k ?h2)) = length (drop ?k ?h2)" by (rule distinct_card)
      also have "\<dots> = 90" using True by simp
      finally have "90 \<le> card (set (filter (\<lambda>s. date snap < date s) h))"
        using card_mono [OF _ sub] by simp
      also have "\<dots> \<le> length (filter (\<lambda>s. date snap < date s) h)" by (rule card_length)
      finally show False using few by simp
    qed
  qed
qed

text \<open>
  C6, as the code has it. When the stored history of the project has at most one
  entry per date (which the empty history has, and which every store keeps), then
  after \<open>store_cfd_snapshot\<close> the history is sorted ascending by date, still has at most
  one entry per date, has at most 90 entries, and any entry of the snapshot's date is
  the snapshot itself, so a second store on the same day replaces the counts of the
  first. The snapshot is in the history whenever fewer than 90 stored entries are of a
  later date; otherwise the cut to the last 90 may drop it.
\<close>

theorem store_cfd_snapshot_history:
  assumes "distinct (map date (history_of cfd project_id))"
  shows "fst (store_cfd_snapshot cfd project_id snap) = True
    \<and> sorted (map date (history_of (snd (store_cfd_snapshot cfd project_id snap)) project_id))
    \<and> distinct (map date (history_of (snd (store_cfd_snapshot cfd project_id snap)) project_id))
    \<and> length (history_of (snd (store_cfd_snapshot cfd project_id snap)) project_id) \<le> 90
    \<and> (\<forall>s \<in> set (history_of (snd (store_cfd_snapshot cfd project_id snap)) project_id).
          date s = date snap \<longrightarrow> s = snap)
    \<and> (length (filter (\<lambda>s. date snap < date s) (history_of cfd project_id)) < 90
        \<longrightarrow> snap \<in> set (history_of (snd (store_cfd_snapshot cfd project_id snap)) project_id))"
proof -
  have h: "history_of (snd (store_cfd_snapshot cfd project_id snap)) project_id
      = store_history (history_of cfd project_id) snap"
    by (simp add: store_cfd_snapshot_def history_of_def)
  have "\<forall>s \<in> set (store_history (history_of cfd project_id) snap). date s = date snap \<longrightarrow> s = snap"
    using store_history_subset [of "history_of cfd project_id" snap] put_snapshot_set [OF assms, of snap]
    by auto
  then show ?thesis
    unfolding h
    using store_history_sorted store_history_distinct [OF assms] store_history_length
      store_history_keeps [OF assms]
    by (simp add: store_cfd_snapshot_def)
qed

text \<open>
  Two stores on the same day into an empty history leave the one entry of the
  second store.
\<close>

theorem store_cfd_snapshot_history_witness:
  "distinct (map date (history_of morning_cfd ''P''))
   \<and> history_of morning_cfd ''P'' = [morning_snapshot]
   \<and> length (filter (\<lambda>s. date evening_snapshot < date s) (history_of morning_cfd ''P'')) < 90
   \<and> evening_snapshot \<in> set (history_of (snd (store_cfd_snapshot morning_cfd ''P'' evening_snapshot)) ''P'')
   \<and> history_of (snd (store_cfd_snapshot morning_cfd ''P'' evening_snapshot)) ''P''
       = [evening_snapshot]"
proof -
  have m: "history_of morning_cfd ''P'' = [morning_snapshot]"
    by (simp add: morning_cfd_def store_cfd_snapshot_def history_of_def store_history_def
        put_snapshot_def Let_def)
  have d: "distinct (map date (history_of morning_cfd ''P''))"
    by (simp add: m)
  have f: "length (filter (\<lambda>s. date evening_snapshot < date s) (history_of morning_cfd ''P'')) < 90"
    by (simp add: m)
  have e: "history_of (snd (store_cfd_snapshot morning_cfd ''P'' evening_snapshot)) ''P''
       = [evening_snapshot]"
    by (simp add: store_cfd_snapshot_def history_of_def m [unfolded history_of_def]
        store_history_def put_snapshot_def Let_def index_of_def
        morning_snapshot_def evening_snapshot_def snap_on_def)
  from store_cfd_snapshot_history [OF d, of evening_snapshot] f
  have "evening_snapshot \<in> set (history_of (snd (store_cfd_snapshot morning_cfd ''P'' evening_snapshot)) ''P'')"
    by blast
  with m d f e show ?thesis by simp
qed

lemma store_history_drops_oldest:
  assumes len: "length h = 90" and later: "\<forall>s \<in> set h. date snap < date s"
  shows "date snap \<notin> set (map date (store_history h snap))"
proof -
  let ?h2 = "sort_key date (h @ [snap])"
  have none: "filter (\<lambda>s. date s = date snap) h = []"
    using later by (auto simp: filter_empty_conv)
  then have put: "put_snapshot h snap = h @ [snap]" by (simp add: put_snapshot_def)
  have res: "store_history h snap = drop 1 ?h2"
    using len by (simp add: store_history_alt put Let_def)
  have "?h2 = snap # sort_key date h"
    using later by (induction h) auto
  then have "store_history h snap = sort_key date h" using res by simp
  then show ?thesis using later by auto
qed

lemma ninety_later: "\<forall>d \<in> set ninety_days. ''2024-12-31'' < d"
  by (auto simp: ninety_days_def)

text \<open>
  C6 as stated fails: the history holds the ninety days from 2025-01-01 to
  2025-03-31, and a snapshot dated 2024-12-31 is stored. It is appended, sorted to
  the front and cut off again, so the history has no entry for its date.
\<close>

theorem store_cfd_snapshot_counterexample:
  "date early_snapshot \<notin>
     set (map date (history_of (snd (store_cfd_snapshot ninety_day_cfd ''P'' early_snapshot)) ''P''))"
proof -
  have h: "history_of (snd (store_cfd_snapshot ninety_day_cfd ''P'' early_snapshot)) ''P''
      = store_history ninety_day_history early_snapshot"
    by (simp add: store_cfd_snapshot_def history_of_def ninety_day_cfd_def)
  have len: "length ninety_day_history = 90"
    by (simp add: ninety_day_history_def ninety_days_def)
  have later: "\<forall>s \<in> set ninety_day_history. date early_snapshot < date s"
    using ninety_later by (auto simp: ninety_day_history_def early_snapshot_def snap_on_def)
  show ?thesis unfolding h by (rule store_history_drops_oldest [OF len later])
qed

section \<open>Creating a project\<close>

lemma lookup_append_old:
  "lookup t q = Some n \<Longrightarrow> lookup (t @ new) q = Some n"
  by (auto simp: lookup_def split: if_splits)

lemma mkdir_parents_keeps:
  assumes "mkdir_parents t p ok = Inr t'" and "lookup t q = Some n"
  shows "lookup t' q = Some n"
  using assms by (auto simp: mkdir_parents_def lookup_append_old split: if_splits)

lemma mkdir_parents_is_dir:
  assumes "mkdir_parents t p ok = Inr t'"
  shows "is_dir t' p"
proof (cases "path_exists t p")
  case True
  with assms show ?thesis by (auto simp: mkdir_parents_def split: if_splits)
next
  case False
  let ?new = "[(q, Dir). q \<leftarrow> prefixes p, \<not> path_exists t q]"
  from False assms have t': "t' = t @ ?new"
    by (auto simp: mkdir_parents_def split: if_splits)
  from False have ne: "p \<noteq> []" and none: "map_of t p = None"
    by (auto simp: path_exists_def lookup_def split: if_splits)
  have "(p, Dir) \<in> set ?new" using False by auto
  then obtain x where x: "map_of ?new p = Some x" by (blast dest: weak_map_of_SomeI)
  then have "(p, x) \<in> set ?new" by (rule map_of_SomeD)
  then have "x = Dir" by auto
  with x none ne show ?thesis
    by (simp add: t' is_dir_def lookup_def map_add_def)
qed

lemma write_text_read:
  assumes "write_text t p s = Inr t'"
  shows "read_text t' p = Inr s"
proof -
  from assms have t': "t' = AList.update p (TextFile s) t" and ne: "p \<noteq> []"
    by (auto simp: write_text_def split: if_splits)
  show ?thesis
    using ne by (simp add: t' read_text_def lookup_def update_conv')
qed

lemma write_text_other:
  assumes "write_text t p s = Inr t'" and "q \<noteq> p"
  shows "lookup t' q = lookup t q"
  using assms by (auto simp: write_text_def lookup_def update_conv' split: if_splits)

lemma make_columns_result:
  assumes "make_columns t pp cols = Inr t'"
  shows "(\<forall>col \<in> set cols. is_dir t' (pjoin pp col) \<and> is_dir t' (pjoin (pjoin pp col) default_dev))
       \<and> (\<forall>q n. lookup t q = Some n \<longrightarrow> lookup t' q = Some n)"
  using assms
proof (induction cols arbitrary: t)
  case Nil
  then show ?case by simp
next
  case (Cons col cols)
  from Cons.prems obtain t1 t2 where
    m1: "mkdir_parents t (pjoin pp col) True = Inr t1" and
    m2: "mkdir_parents t1 (pjoin (pjoin pp col) default_dev) True = Inr t2" and
    rest: "make_columns t2 pp cols = Inr t'"
    by (auto simp: Let_def split: sum.splits)
  note IH = Cons.IH [OF rest]
  have d1: "is_dir t1 (pjoin pp col)" by (rule mkdir_parents_is_dir [OF m1])
  have d2: "is_dir t2 (pjoin (pjoin pp col) default_dev)" by (rule mkdir_parents_is_dir [OF m2])
  have d1': "is_dir t2 (pjoin pp col)"
    using d1 mkdir_parents_keeps [OF m2] by (simp add: is_dir_def)
  have "is_dir t' (pjoin pp col)" "is_dir t' (pjoin (pjoin pp col) default_dev)"
    using d1' d2 IH by (simp_all add: is_dir_def)
  moreover have "\<forall>q n. lookup t q = Some n \<longrightarrow> lookup t' q = Some n"
    using mkdir_parents_keeps [OF m1] mkdir_parents_keeps [OF m2] IH by blast
  ultimately show ?case using IH by simp
qed

text \<open>
  C8, as the code has it. \<open>create_project\<close> fails with the message that the project
  already exists, changing nothing, when the project directory exists. When it
  succeeds, the five folders \<open>backlog\<close>, \<open>inprogress\<close>, \<open>review\<close>, \<open>done\<close> and
  \<open>testing\<close> are directories of the project, each holding a directory
  \<open>default-dev\<close>, and \<open>README.md\<close> reads \<open># <description>\<close> and a newline, the
  description being \<open>Project <id>\<close> when none is given.
\<close>

theorem create_project_postcondition:
  "(project_data ''id'' = Some project_id \<and> project_id \<noteq> [] \<and> path_exists t (pjoin base_dir project_id)
      \<longrightarrow> create_project t project_data
          = ((False, Some (Text (''Project '' @ project_id @ '' already exists''))), t))
   \<and> (project_data ''id'' = Some project_id \<and> fst (fst (create_project t project_data))
      \<longrightarrow> (\<forall>col \<in> set [''backlog'', ''inprogress'', ''review'', ''done'', ''testing''].
             is_dir (snd (create_project t project_data)) (pjoin (pjoin base_dir project_id) col)
             \<and> is_dir (snd (create_project t project_data))
                 (pjoin (pjoin (pjoin base_dir project_id) col) ''default-dev''))
          \<and> read_text (snd (create_project t project_data))
               (pjoin (pjoin base_dir project_id) ''README.md'')
             = Inr (''# '' @ (case project_data ''description'' of
                               None \<Rightarrow> ''Project '' @ project_id | Some d \<Rightarrow> d) @ ''\<newline>''))"
proof (rule conjI; rule impI)
  assume "project_data ''id'' = Some project_id \<and> project_id \<noteq> [] \<and> path_exists t (pjoin base_dir project_id)"
  then show "create_project t project_data
          = ((False, Some (Text (''Project '' @ project_id @ '' already exists''))), t)"
    by (simp add: create_project_def)
next
  assume a: "project_data ''id'' = Some project_id \<and> fst (fst (create_project t project_data))"
  let ?pp = "pjoin base_dir project_id"
  let ?desc = "case project_data ''description'' of None \<Rightarrow> ''Project '' @ project_id | Some d \<Rightarrow> d"
  from a obtain t1 t2 t3 where
    m: "mkdir_parents t ?pp False = Inr t1" and
    w: "write_text t1 (pjoin ?pp ''README.md'') (''# '' @ ?desc @ ''\<newline>'') = Inr t2" and
    c: "make_columns t2 ?pp columns = Inr t3" and
    r: "snd (create_project t project_data) = t3"
    by (auto simp: create_project_def Let_def split: if_splits sum.splits prod.splits)
  note mc = make_columns_result [OF c]
  have "read_text t2 (pjoin ?pp ''README.md'') = Inr (''# '' @ ?desc @ ''\<newline>'')"
    by (rule write_text_read [OF w])
  then have "lookup t2 (pjoin ?pp ''README.md'') = Some (TextFile (''# '' @ ?desc @ ''\<newline>''))"
    by (auto simp: read_text_def split: option.splits node.splits)
  with mc have "lookup t3 (pjoin ?pp ''README.md'') = Some (TextFile (''# '' @ ?desc @ ''\<newline>''))"
    by blast
  then have readme: "read_text t3 (pjoin ?pp ''README.md'') = Inr (''# '' @ ?desc @ ''\<newline>'')"
    by (simp add: read_text_def)
  have cols: "\<forall>col \<in> set [''backlog'', ''inprogress'', ''review'', ''done'', ''testing''].
             is_dir t3 (pjoin ?pp col) \<and> is_dir t3 (pjoin (pjoin ?pp col) ''default-dev'')"
    using mc by (simp add: columns_def default_dev_def)
  show "(\<forall>col \<in> set [''backlog'', ''inprogress'', ''review'', ''done'', ''testing''].
             is_dir (snd (create_project t project_data)) (pjoin (pjoin base_dir project_id) col)
             \<and> is_dir (snd (create_project t project_data))
                 (pjoin (pjoin (pjoin base_dir project_id) col) ''default-dev''))
          \<and> read_text (snd (create_project t project_data))
               (pjoin (pjoin base_dir project_id) ''README.md'')
             = Inr (''# '' @ ?desc @ ''\<newline>'')"
    unfolding r using cols readme by blast
qed

text \<open>
  A project \<open>proj-1\<close> created in an empty base directory, and created once more.
\<close>

theorem create_project_postcondition_witness:
  "new_project ''id'' = Some ''proj-1''
   \<and> fst (fst (create_project [] new_project))
   \<and> is_dir created_tree [''proj-1'', ''inprogress'']
   \<and> is_dir created_tree [''proj-1'', ''backlog'', ''default-dev'']
   \<and> read_text created_tree [''proj-1'', ''README.md''] = Inr ''# Project proj-1\<newline>''
   \<and> path_exists created_tree (pjoin base_dir ''proj-1'')
   \<and> create_project created_tree new_project
       = ((False, Some (Text ''Project proj-1 already exists'')), created_tree)"
proof -
  have i: "new_project ''id'' = Some ''proj-1''" by (simp add: new_project_def)
  have d: "new_project ''description'' = None" by (simp add: new_project_def)
  have ok: "fst (fst (create_project [] new_project))" by code_simp
  have ex: "path_exists created_tree (pjoin base_dir ''proj-1'')" by code_simp
  have p1: "pjoin (pjoin base_dir ''proj-1'') ''inprogress'' = [''proj-1'', ''inprogress'']"
    by code_simp
  have p2: "pjoin (pjoin (pjoin base_dir ''proj-1'') ''backlog'') ''default-dev''
      = [''proj-1'', ''backlog'', ''default-dev'']"
    by code_simp
  have p3: "pjoin (pjoin base_dir ''proj-1'') ''README.md'' = [''proj-1'', ''README.md'']"
    by code_simp
  from create_project_postcondition [of new_project "''proj-1''" "[]"] i ok
  have post: "(\<forall>col \<in> set [''backlog'', ''inprogress'', ''review'', ''done'', ''testing''].
        is_dir created_tree (pjoin (pjoin base_dir ''proj-1'') col)
        \<and> is_dir created_tree (pjoin (pjoin (pjoin base_dir ''proj-1'') col) ''default-dev''))
      \<and> read_text created_tree (pjoin (pjoin base_dir ''proj-1'') ''README.md'')
          = Inr (''# '' @ ''Project '' @ ''proj-1'' @ ''\<newline>'')"
    by (simp add: created_tree_def d)
  from post have a: "is_dir created_tree [''proj-1'', ''inprogress'']"
    using p1 by simp
  from post have b: "is_dir created_tree [''proj-1'', ''backlog'', ''default-dev'']"
    using p2 by simp
  from post have c: "read_text created_tree [''proj-1'', ''README.md''] = Inr ''# Project proj-1\<newline>''"
    using p3 by simp
  from create_project_postcondition [of new_project "''proj-1''" created_tree] i ex
  have again: "create_project created_tree new_project
       = ((False, Some (Text ''Project proj-1 already exists'')), created_tree)"
    by simp
  from i ok a b c ex again show ?thesis by simp
qed

text \<open>
  C8 as stated fails: the project just created has no folder \<open>progress\<close>; the
  folder of the running tasks is \<open>inprogress\<close>.
\<close>

theorem create_project_counterexample:
  "fst (fst (create_project [] new_project))
   \<and> \<not> path_exists (snd (create_project [] new_project)) (pjoin (pjoin base_dir ''proj-1'') ''progress'')
   \<and> is_dir (snd (create_project [] new_project)) (pjoin (pjoin base_dir ''proj-1'') ''inprogress'')"
  by code_simp

section \<open>Reading a task file\<close>



lemma find_sep_prefix:
  assumes "prefix sep s" and "sep \<noteq> []"
  shows "find_sep sep s = Some ([], drop (length sep) s)"
  using assms by (cases s) auto






section \<open>Locating a task\<close>








section \<open>Updating a task\<close>

lemma split_on_no_sep: "c \<notin> set xs \<Longrightarrow> split_on c xs = [xs]"
  by (induction xs) auto

lemma parts_single:
  assumes "CHR ''/'' \<notin> set s" and "s \<noteq> []" and "s \<noteq> ''.''"
  shows "parts s = [s]"
  using assms by (simp add: parts_def split_on_no_sep)

lemma py_in_prefix: "prefix a b \<Longrightarrow> py_in a b"
  by (cases b) auto

lemma task_file_name_parts:
  assumes "CHR ''/'' \<notin> set s"
  shows "parts (task_file_name (PStr s)) = [s @ ''.md'']"
proof -
  have "s @ ''.md'' \<noteq> ''.''" by (cases s) auto
  then show ?thesis
    using assms by (simp add: task_file_name_def parts_single)
qed

lemma id_in_own_name:
  assumes "CHR ''/'' \<notin> set s"
  shows "py_in s (name_of (pjoin d (task_file_name (PStr s))))"
  using assms by (simp add: pjoin_def name_of_def task_file_name_parts py_in_prefix)

lemma destination_never_refused:
  assumes "CHR ''/'' \<notin> set s"
    and "read_text t (pjoin d (task_file_name (PStr s))) = Inr existing_content"
  shows "\<not> destination_refused t (pjoin d (task_file_name (PStr s))) (PStr s)"
  using assms by (simp add: destination_refused_def id_in_own_name)

text \<open>
  C3, at a failing input. The task \<open>t1\<close> lies in \<open>backlog\<close>; the request moves it to
  \<open>progress/dev-alice\<close>, where a file \<open>t1.md\<close> exists whose text does not contain
  \<open>t1\<close>. The update does not abort: it returns \<open>True\<close>, the file at the destination
  now holds the text of the request, and the file in \<open>backlog\<close> is gone. By
  \<open>destination_never_refused\<close> the check can never refuse a destination that can be
  read, since the file name it also looks into always contains the task ID.
\<close>

theorem update_collision_overwrites:
  "read_text collision_tree [''proj-1'', ''progress'', ''dev-alice'', ''t1.md'']
     = Inr other_task_text
   \<and> \<not> py_in ''t1'' other_task_text
   \<and> fst (update_task_file collision_tree ''2025-01-03T09:00:00'' ''proj-1'' move_request)
       = Returned True
   \<and> read_text (snd (update_task_file collision_tree ''2025-01-03T09:00:00'' ''proj-1'' move_request))
         [''proj-1'', ''progress'', ''dev-alice'', ''t1.md'']
       = Inr (update_file_content ''2025-01-03T09:00:00'' move_request)
   \<and> update_file_content ''2025-01-03T09:00:00'' move_request \<noteq> other_task_text
   \<and> \<not> path_exists (snd (update_task_file collision_tree ''2025-01-03T09:00:00'' ''proj-1'' move_request))
         [''proj-1'', ''backlog'', ''t1.md'']"
  by code_simp






section \<open>The files of a task\<close>






























section \<open>Parsing what was written\<close>

lemma strip_where_Nil: "strip_where P [] = []"
  by (simp add: strip_where_def)

lemma strip_where_lead: "P c \<Longrightarrow> strip_where P (c # s) = strip_where P s"
  by (simp add: strip_where_def)

lemma strip_where_trail: "P c \<Longrightarrow> strip_where P (s @ [c]) = strip_where P s"
proof (induction s)
  case Nil
  then show ?case by (simp add: strip_where_def)
next
  case (Cons x s)
  then show ?case by (cases "P x") (simp_all add: strip_where_def)
qed

lemma dropWhile_hd_id: "s \<noteq> [] \<Longrightarrow> \<not> P (hd s) \<Longrightarrow> dropWhile P s = s"
  by (cases s) auto

lemma last_dropWhile: "dropWhile P xs \<noteq> [] \<Longrightarrow> last (dropWhile P xs) = last xs"
  by (induction xs) (auto split: if_splits)

lemma strip_where_id:
  assumes "s \<noteq> []" and "\<not> P (hd s)" and "\<not> P (last s)"
  shows "strip_where P s = s"
proof -
  have a: "dropWhile P s = s" using assms by (simp add: dropWhile_hd_id)
  have "rev s \<noteq> []" "\<not> P (hd (rev s))" using assms by (simp_all add: hd_rev)
  then have "dropWhile P (rev s) = rev s" by (rule dropWhile_hd_id)
  with a show ?thesis by (simp add: strip_where_def)
qed

lemma strip_where_ends:
  assumes "strip_where P s \<noteq> []"
  shows "\<not> P (hd (strip_where P s))" and "\<not> P (last (strip_where P s))"
proof -
  define a where "a = dropWhile P s"
  define b where "b = dropWhile P (rev a)"
  have st: "strip_where P s = rev b" by (simp add: strip_where_def a_def b_def)
  with assms have bne: "b \<noteq> []" by simp
  then have hb: "\<not> P (hd b)" unfolding b_def by (rule hd_dropWhile)
  from bne have lb: "last b = last (rev a)" unfolding b_def by (rule last_dropWhile)
  have ane: "a \<noteq> []"
  proof
    assume "a = []"
    then have "b = []" by (simp add: b_def)
    with bne show False by simp
  qed
  then have ha: "\<not> P (hd a)" unfolding a_def by (rule hd_dropWhile)
  from ane have "last (rev a) = hd a" by (simp add: last_rev)
  with lb ha have "\<not> P (last b)" by simp
  with bne show "\<not> P (hd (strip_where P s))" by (simp add: st hd_rev)
  from hb bne show "\<not> P (last (strip_where P s))" by (simp add: st last_rev)
qed

lemma strip_where_idem: "strip_where P (strip_where P s) = strip_where P s"
proof (cases "strip_where P s = []")
  case True
  then show ?thesis by (simp add: strip_where_Nil)
next
  case False
  from strip_where_id [OF False strip_where_ends [OF False]] show ?thesis .
qed

lemma set_strip_where: "set (strip_where P s) \<subseteq> set s"
proof -
  have "set (dropWhile P xs) \<subseteq> set xs" for xs :: string
    by (auto dest: set_dropWhileD)
  then have "set (dropWhile P (rev (dropWhile P s))) \<subseteq> set s"
    by (metis (no_types) order_trans set_rev)
  then show ?thesis by (simp add: strip_where_def)
qed

lemma prefix_dash_cut:
  assumes "c \<noteq> CHR ''-''"
  shows "prefix ''---'' (a @ c # b) = prefix ''---'' a"
proof (cases a)
  case Nil
  with assms show ?thesis by auto
next
  case (Cons x xs)
  note a1 = Cons
  show ?thesis
  proof (cases xs)
    case Nil
    with a1 assms show ?thesis by auto
  next
    case (Cons y ys)
    note a2 = Cons
    show ?thesis
    proof (cases ys)
      case Nil
      with a1 a2 assms show ?thesis by auto
    next
      case (Cons z zs)
      with a1 a2 show ?thesis by auto
    qed
  qed
qed

lemma py_in_dash_cut:
  assumes "c \<noteq> CHR ''-''"
  shows "py_in ''---'' (a @ c # b) = (py_in ''---'' a \<or> py_in ''---'' b)"
proof (induction a)
  case Nil
  from assms have "CHR ''-'' \<noteq> c" by auto
  then show ?case by simp
next
  case (Cons x xs)
  have "prefix ''---'' ((x # xs) @ c # b) = prefix ''---'' (x # xs)"
    using assms by (rule prefix_dash_cut)
  with Cons show ?case by auto
qed

lemma find_sep_delimiter:
  assumes "\<not> py_in ''---'' y"
  shows "find_sep ''---'' (y @ CHR 0x0A # ''---'' @ rest) = Some (y @ [CHR 0x0A], rest)"
  using assms
proof (induction y)
  case Nil
  then show ?case by simp
next
  case (Cons x xs)
  have "prefix ''---'' ((x # xs) @ CHR 0x0A # ''---'' @ rest) = prefix ''---'' (x # xs)"
    by (rule prefix_dash_cut) simp
  moreover from Cons.prems have "\<not> prefix ''---'' (x # xs)" "\<not> py_in ''---'' xs" by auto
  ultimately show ?case using Cons.IH by simp
qed

lemma is_space_newline: "is_space (CHR 0x0A)"
  by (simp add: is_space_def)

lemma split_frontmatter_file_text:
  assumes "\<not> py_in ''---'' yaml"
  shows "split_frontmatter (file_text yaml body) = (py_strip yaml, py_strip body)"
proof -
  let ?rest = "CHR 0x0A # CHR 0x0A # body"
  have t: "file_text yaml body = ''---'' @ (CHR 0x0A # yaml) @ CHR 0x0A # ''---'' @ ?rest"
    by (simp add: file_text_def)
  have pre: "prefix ''---'' (file_text yaml body)" by (simp add: file_text_def)
  have f1: "find_sep ''---'' (file_text yaml body)
      = Some ([], (CHR 0x0A # yaml) @ CHR 0x0A # ''---'' @ ?rest)"
    by (simp add: file_text_def)
  have "\<not> py_in ''---'' (CHR 0x0A # yaml)" using assms by simp
  then have f2: "find_sep ''---'' ((CHR 0x0A # yaml) @ CHR 0x0A # ''---'' @ ?rest)
      = Some ((CHR 0x0A # yaml) @ [CHR 0x0A], ?rest)"
    by (rule find_sep_delimiter)
  have sp: "split_max ''---'' 2 (file_text yaml body)
      = [[], CHR 0x0A # yaml @ [CHR 0x0A], ?rest]"
    using f1 f2 by (simp add: numeral_2_eq_2)
  have s1: "py_strip (CHR 0x0A # yaml @ [CHR 0x0A]) = py_strip yaml"
    unfolding py_strip_def
    using strip_where_trail [of is_space "CHR 0x0A" "CHR 0x0A # yaml"]
      strip_where_lead [of is_space "CHR 0x0A" yaml] is_space_newline
    by simp
  have s2: "py_strip ?rest = py_strip body"
    unfolding py_strip_def
    using strip_where_lead [of is_space "CHR 0x0A"] is_space_newline by simp
  show ?thesis
    using pre by (simp add: split_frontmatter_def Let_def sp s1 s2)
qed

lemma split_on_not_Nil: "split_on c s \<noteq> []"
  by (induction s) (auto split: list.splits)

lemma split_on_append_sep:
  assumes "c \<notin> set l"
  shows "split_on c (l @ c # r) = l # split_on c r"
  using assms by (induction l) auto

lemma split_on_join_lines:
  assumes "ls \<noteq> []" and "\<forall>l \<in> set ls. CHR 0x0A \<notin> set l"
  shows "split_on CHR 0x0A (join_lines ls) = ls"
  using assms
proof (induction ls rule: join_lines.induct)
  case 1
  then show ?case by simp
next
  case (2 l)
  then show ?case by (simp add: split_on_no_sep)
next
  case (3 l m ls)
  then show ?case by (simp add: split_on_append_sep)
qed

lemma split_on_snoc_sep: "split_on c (xs @ [c]) = split_on c xs @ [[]]"
  by (induction xs) (auto simp: split_on_not_Nil split: list.splits)

lemma split_on_snoc_other:
  assumes "x \<noteq> c"
  shows "split_on c (xs @ [x]) = butlast (split_on c xs) @ [last (split_on c xs) @ [x]]"
  using assms
proof (induction xs)
  case Nil
  then show ?case by simp
next
  case (Cons y ys)
  obtain w ws where sp: "split_on c ys = w # ws"
    using split_on_not_Nil [of c ys] by (cases "split_on c ys") auto
  with Cons show ?case by (cases ws) (auto split: list.splits)
qed

lemma parse_line_lead: "is_space c \<Longrightarrow> parse_line (c # l) m = parse_line l m"
  by (simp add: parse_line_def py_strip_def strip_where_lead)

lemma parse_line_trail: "is_space c \<Longrightarrow> parse_line (l @ [c]) m = parse_line l m"
  by (simp add: parse_line_def py_strip_def strip_where_trail)

lemma parse_line_Nil: "parse_line [] m = m"
  by (simp add: parse_line_def py_strip_def strip_where_Nil)

lemma lines_lead:
  assumes "is_space c"
  shows "fold parse_line (split_on CHR 0x0A (c # s)) m = fold parse_line (split_on CHR 0x0A s) m"
proof (cases "c = CHR 0x0A")
  case True
  then show ?thesis by (simp add: parse_line_Nil)
next
  case False
  obtain w ws where sp: "split_on CHR 0x0A s = w # ws"
    using split_on_not_Nil [of "CHR 0x0A" s] by (cases "split_on CHR 0x0A s") auto
  with False assms show ?thesis by (simp add: parse_line_lead)
qed

lemma lines_trail:
  assumes "is_space c"
  shows "fold parse_line (split_on CHR 0x0A (s @ [c])) m = fold parse_line (split_on CHR 0x0A s) m"
proof (cases "c = CHR 0x0A")
  case True
  then show ?thesis by (simp add: split_on_snoc_sep parse_line_Nil)
next
  case False
  let ?ls = "split_on CHR 0x0A s"
  have ne: "?ls \<noteq> []" by (rule split_on_not_Nil)
  have "fold parse_line (butlast ?ls @ [last ?ls @ [c]]) m
      = parse_line (last ?ls) (fold parse_line (butlast ?ls) m)"
    using assms by (simp add: parse_line_trail)
  also have "\<dots> = fold parse_line (butlast ?ls @ [last ?ls]) m" by simp
  also have "\<dots> = fold parse_line ?ls m" using ne by simp
  finally show ?thesis using False by (simp add: split_on_snoc_other)
qed

lemma lines_drop_lead:
  "fold parse_line (split_on CHR 0x0A (dropWhile is_space s)) m
   = fold parse_line (split_on CHR 0x0A s) m"
proof (induction s)
  case Nil
  then show ?case by simp
next
  case (Cons c s)
  then show ?case using lines_lead [of c s m] by (cases "is_space c") simp_all
qed

lemma lines_drop_trail:
  "fold parse_line (split_on CHR 0x0A (rev (dropWhile is_space (rev s)))) m
   = fold parse_line (split_on CHR 0x0A s) m"
proof (induction s rule: rev_induct)
  case Nil
  then show ?case by simp
next
  case (snoc c s)
  then show ?case using lines_trail [of c s m] by (cases "is_space c") simp_all
qed

lemma parse_yaml_fold: "parse_yaml s = fold parse_line (split_on CHR 0x0A s) []"
  by (simp add: parse_yaml_def parse_line_Nil)

lemma parse_yaml_strip: "parse_yaml (py_strip s) = parse_yaml s"
  unfolding parse_yaml_fold py_strip_def strip_where_def
  by (simp only: lines_drop_trail lines_drop_lead)

lemma find_sep_char:
  assumes "c \<notin> set a"
  shows "find_sep [c] (a @ c # b) = Some (a, b)"
  using assms by (induction a) auto

lemma py_strip_ends:
  assumes "py_strip s = s" and "s \<noteq> []"
  shows "\<not> is_space (hd s)" and "\<not> is_space (last s)"
proof -
  from assms have ne: "strip_where is_space s \<noteq> []" by (simp add: py_strip_def)
  from strip_where_ends [OF ne] assms(1)
  show "\<not> is_space (hd s)" and "\<not> is_space (last s)" by (simp_all add: py_strip_def)
qed

lemma py_strip_id:
  assumes "s \<noteq> []" and "\<not> is_space (hd s)" and "\<not> is_space (last s)"
  shows "py_strip s = s"
  unfolding py_strip_def using assms by (rule strip_where_id)

lemma parse_line_kv:
  assumes "CHR '':'' \<notin> set k" and "py_strip k = k"
    and "py_strip (k @ CHR '':'' # r) = k @ CHR '':'' # r"
  shows "parse_line (k @ CHR '':'' # r) m
         = AList.update k (strip_chars [CHR 0x27, CHR 0x22] (py_strip r)) m"
proof -
  have "find_sep '':'' (k @ CHR '':'' # r) = Some (k, r)"
    using assms(1) by (rule find_sep_char)
  then have sp: "split_max '':'' 1 (k @ CHR '':'' # r) = [k, r]" by simp
  show ?thesis
    unfolding parse_line_def Let_def assms(3) sp using assms(2) by simp
qed

lemma not_space_chars:
  "\<not> is_space (CHR '':'')" "\<not> is_space (CHR 0x27)" "\<not> is_space (CHR 0x22)"
  "is_space (CHR '' '')"
  by (simp_all add: is_space_def)

lemma parse_dump_line:
  assumes key: "plain_key k" and v: "canonical v"
  shows "parse_line (dump_line (k, PStr v)) m = AList.update k v m"
proof -
  from key have kne: "k \<noteq> []" and kc: "CHR '':'' \<notin> set k" and ks: "py_strip k = k"
    by (simp_all add: plain_key_def)
  from py_strip_ends [OF ks kne] have hk: "\<not> is_space (hd k)" by simp
  from v have vq: "strip_chars [CHR 0x27, CHR 0x22] v = v" by (simp add: canonical_def)
  have whole: "py_strip (k @ CHR '':'' # r) = k @ CHR '':'' # r"
    if "r = [] \<or> \<not> is_space (last r)" for r
  proof (rule py_strip_id)
    show "k @ CHR '':'' # r \<noteq> []" by simp
    show "\<not> is_space (hd (k @ CHR '':'' # r))" using kne hk by simp
    show "\<not> is_space (last (k @ CHR '':'' # r))" using that not_space_chars by auto
  qed
  show ?thesis
  proof (cases "needs_quotes v")
    case True
    let ?r = "CHR '' '' # CHR 0x27 # v @ [CHR 0x27]"
    have line: "dump_line (k, PStr v) = k @ CHR '':'' # ?r"
      using True by (simp add: dump_line_def)
    have "py_strip ?r = py_strip (CHR 0x27 # v @ [CHR 0x27])"
      unfolding py_strip_def by (rule strip_where_lead) (rule not_space_chars)
    also have "\<dots> = CHR 0x27 # v @ [CHR 0x27]"
      by (rule py_strip_id) (simp_all add: not_space_chars)
    finally have sr: "py_strip ?r = CHR 0x27 # v @ [CHR 0x27]" .
    have "strip_chars [CHR 0x27, CHR 0x22] (CHR 0x27 # v @ [CHR 0x27])
        = strip_chars [CHR 0x27, CHR 0x22] (v @ [CHR 0x27])"
      unfolding strip_chars_def by (rule strip_where_lead) simp
    also have "\<dots> = strip_chars [CHR 0x27, CHR 0x22] v"
      unfolding strip_chars_def by (rule strip_where_trail) simp
    finally have sq: "strip_chars [CHR 0x27, CHR 0x22] (CHR 0x27 # v @ [CHR 0x27]) = v"
      using vq by simp
    have "\<not> is_space (last ?r)" by (simp add: not_space_chars)
    from parse_line_kv [OF kc ks whole, of ?r m] this show ?thesis
      by (simp add: line sr sq)
  next
    case False
    with v have vs: "py_strip v = v" by (simp add: canonical_def)
    have line: "dump_line (k, PStr v) = k @ CHR '':'' # CHR '' '' # v"
      using False by (simp add: dump_line_def)
    show ?thesis
    proof (cases "v = []")
      case True
      have "parse_line ((k @ '':'') @ [CHR '' '']) m = parse_line (k @ '':'') m"
        by (rule parse_line_trail) (rule not_space_chars)
      moreover have "parse_line (k @ CHR '':'' # []) m
          = AList.update k (strip_chars [CHR 0x27, CHR 0x22] (py_strip [])) m"
        by (rule parse_line_kv [OF kc ks whole]) simp
      moreover have "dump_line (k, PStr []) = k @ '': ''"
        using line True by simp
      ultimately show ?thesis
        using True by (simp add: py_strip_def strip_chars_def strip_where_Nil)
    next
      case False
      from py_strip_ends [OF vs False] have lv: "\<not> is_space (last v)" by simp
      have "py_strip (CHR '' '' # v) = py_strip v"
        unfolding py_strip_def by (rule strip_where_lead) (rule not_space_chars)
      then have sr: "py_strip (CHR '' '' # v) = v" using vs by simp
      have "\<not> is_space (last (CHR '' '' # v))" using False lv by simp
      from parse_line_kv [OF kc ks whole, of "CHR '' '' # v" m] this show ?thesis
        by (simp add: line sr vq)
    qed
  qed
qed

lemma dump_line_plain:
  assumes "plain_key k" and "canonical v"
  shows "\<not> py_in ''---'' (dump_line (k, PStr v))" and "CHR 0x0A \<notin> set (dump_line (k, PStr v))"
proof -
  from assms have kd: "\<not> py_in ''---'' k" and kn: "CHR 0x0A \<notin> set k"
    and vd: "\<not> py_in ''---'' v" and vn: "CHR 0x0A \<notin> set v"
    by (simp_all add: plain_key_def canonical_def)
  have q: "py_in ''---'' (v @ [CHR 0x27]) = (py_in ''---'' v \<or> py_in ''---'' [])"
    by (rule py_in_dash_cut) simp
  have "py_in ''---'' (k @ CHR '':'' # r) = (py_in ''---'' k \<or> py_in ''---'' r)" for r
    by (rule py_in_dash_cut) simp
  then show "\<not> py_in ''---'' (dump_line (k, PStr v))"
    using kd vd q by (simp add: dump_line_def)
  show "CHR 0x0A \<notin> set (dump_line (k, PStr v))"
    using kn vn by (simp add: dump_line_def)
qed

lemma join_lines_plain:
  assumes "\<forall>l \<in> set ls. \<not> py_in ''---'' l"
  shows "\<not> py_in ''---'' (join_lines ls)"
  using assms
proof (induction ls rule: join_lines.induct)
  case 1
  then show ?case by simp
next
  case (2 l)
  then show ?case by simp
next
  case (3 l m ls)
  have "py_in ''---'' (l @ CHR 0x0A # join_lines (m # ls))
      = (py_in ''---'' l \<or> py_in ''---'' (join_lines (m # ls)))"
    by (rule py_in_dash_cut) simp
  with 3 show ?case by simp
qed

lemma canonical_bool: "canonical ''True''" "canonical ''False''"
  by (simp_all add: canonical_def strip_chars_def py_strip_def strip_where_def is_space_def)

lemma dump_line_value:
  "dump_line (k, PBool b) = dump_line (k, PStr (py_str (PBool b)))"
  by (simp add: dump_line_def needs_quotes_def)

text \<open>
  What the parser reads back from a block that \<open>simple_yaml_dump\<close> wrote: each item
  with the text of its value, in the order written; and the body comes back stripped.
\<close>

lemma parse_dump:
  assumes items: "\<forall>kv \<in> set fm. plain_key (fst kv) \<and> snd kv \<noteq> PNone
                     \<and> (\<exists>v. (snd kv = PStr v \<or> (\<exists>b. snd kv = PBool b))
                              \<and> py_str (snd kv) = v \<and> canonical v)"
    and ne: "fm \<noteq> []"
  shows "parse_yaml (fst (split_frontmatter (file_text (simple_yaml_dump fm) body)))
           = fold (\<lambda>kv. AList.update (fst kv) (py_str (snd kv))) fm []"
    and "snd (split_frontmatter (file_text (simple_yaml_dump fm) body)) = py_strip body"
proof -
  have keep: "filter (\<lambda>kv. snd kv \<noteq> PNone) fm = fm" using items by (simp add: filter_id_conv)
  have eq: "dump_line kv = dump_line (fst kv, PStr (py_str (snd kv)))" if "kv \<in> set fm" for kv
  proof -
    from items that have "(\<exists>v. snd kv = PStr v) \<or> (\<exists>b. snd kv = PBool b)" by blast
    then show ?thesis
    proof
      assume "\<exists>v. snd kv = PStr v"
      then show ?thesis by (cases kv) auto
    next
      assume "\<exists>b. snd kv = PBool b"
      then show ?thesis using dump_line_value by (cases kv) auto
    qed
  qed
  have can: "canonical (py_str (snd kv))" "plain_key (fst kv)" if "kv \<in> set fm" for kv
    using items that by auto
  let ?lines = "map dump_line fm"
  have yaml: "simple_yaml_dump fm = join_lines ?lines" by (simp add: simple_yaml_dump_def keep)
  have lp: "\<forall>l \<in> set ?lines. \<not> py_in ''---'' l" and ln: "\<forall>l \<in> set ?lines. CHR 0x0A \<notin> set l"
    using eq can dump_line_plain by auto
  have nd: "\<not> py_in ''---'' (simple_yaml_dump fm)"
    unfolding yaml by (rule join_lines_plain [OF lp])
  note sf = split_frontmatter_file_text [OF nd, of body]
  show "snd (split_frontmatter (file_text (simple_yaml_dump fm) body)) = py_strip body"
    by (simp add: sf)
  have "parse_yaml (fst (split_frontmatter (file_text (simple_yaml_dump fm) body)))
      = parse_yaml (simple_yaml_dump fm)"
    by (simp add: sf parse_yaml_strip)
  also have "\<dots> = fold parse_line ?lines []"
    unfolding parse_yaml_fold yaml using split_on_join_lines [OF _ ln] ne by simp
  also have "\<dots> = fold (\<lambda>kv. parse_line (dump_line kv)) fm []"
    by (simp add: fold_map comp_def)
  also have "\<dots> = fold (\<lambda>kv. AList.update (fst kv) (py_str (snd kv))) fm []"
  proof (rule fold_cong)
    fix kv assume "kv \<in> set fm"
    from eq [OF this] parse_dump_line [OF can(2) can(1), OF this this]
    show "parse_line (dump_line kv) = AList.update (fst kv) (py_str (snd kv))"
      by (simp add: fun_eq_iff)
  qed simp_all
  finally show "parse_yaml (fst (split_frontmatter (file_text (simple_yaml_dump fm) body)))
           = fold (\<lambda>kv. AList.update (fst kv) (py_str (snd kv))) fm []" .
qed

lemma count_str_none:
  assumes "find_sep sep s = None"
  shows "count_str sep s = 0"
  using assms by (cases "length s") (simp_all add: count_str_def)

lemma split_frontmatter_block:
  assumes "prefix ''---'' content" and "0 < count_str ''---'' (drop 3 content)"
  shows "\<exists>a b. split_frontmatter content = (py_strip a, py_strip b)"
proof -
  from assms(2) count_str_none [of "''---''" "drop 3 content"]
  obtain b a where f2: "find_sep ''---'' (drop 3 content) = Some (b, a)"
    by (cases "find_sep ''---'' (drop 3 content)") auto
  have "find_sep ''---'' content = Some ([], drop (length ''---'') content)"
    using find_sep_prefix [OF assms(1)] by simp
  moreover have "length ''---'' = 3" by simp
  ultimately have f1: "find_sep ''---'' content = Some ([], drop 3 content)" by (simp only:)
  have "split_max ''---'' 2 content = [[], b, a]"
    using f1 f2 by (simp add: numeral_2_eq_2 numeral_3_eq_3)
  then have "split_frontmatter content = (py_strip b, py_strip a)"
    using assms(1) by (simp add: split_frontmatter_def Let_def)
  then show ?thesis by blast
qed

lemma plain_keys:
  "plain_key ''title''" "plain_key ''estimate''" "plain_key ''spent_time''"
  "plain_key ''priority''" "plain_key ''developer''" "plain_key ''status''"
  "plain_key ''created''" "plain_key ''created_at''" "plain_key ''started_at''"
  "plain_key ''done_at''" "plain_key ''blocked''" "plain_key ''blocked_at''"
  "plain_key ''blocked_reason''" "plain_key ''unblocked_at''"
  by code_simp+

lemma blocked_again:
  "(py_lower (py_str (PBool b)) \<in> set [''true'', ''yes'', ''1'']) = b"
proof (cases b)
  case True
  have "py_lower ''True'' = ''true''" by code_simp
  with True show ?thesis by simp
next
  case False
  have "py_lower ''False'' = ''false''" by code_simp
  with False show ?thesis by simp
qed

lemma round_trip_fields:
  fixes m :: metadata
  assumes cT: "canonical T" and cE: "canonical E" and cS: "canonical S" and cP: "canonical P"
    and cST: "canonical ST" and cC: "canonical C" and cCA: "canonical CA"
    and cSA: "canonical SA" and cDA: "canonical DA" and cBA: "canonical BA"
    and cBR: "canonical BR" and cUA: "canonical UA"
    and cD: "canonical (field_text D)" and D: "D = PNone \<or> (\<exists>dv. D = PStr dv)"
    and fm: "fm = filter (\<lambda>kv. snd kv \<noteq> PNone)
       [(''title'', PStr T), (''estimate'', PStr E), (''spent_time'', PStr S),
        (''priority'', PStr P), (''developer'', D), (''status'', PStr ST),
        (''created'', PStr C), (''created_at'', PStr CA), (''started_at'', PStr SA),
        (''done_at'', PStr DA), (''blocked'', PBool B), (''blocked_at'', PStr BA),
        (''blocked_reason'', PStr BR), (''unblocked_at'', PStr UA)]"
    and m: "m = parse_yaml (fst (split_frontmatter (file_text (simple_yaml_dump fm) body)))"
  shows "mget_default m ''title'' d1 = T" and "mget_default m ''estimate'' d2 = E"
    and "mget_default m ''spent_time'' d3 = S" and "mget_default m ''priority'' d4 = P"
    and "mget m ''developer'' = D" and "mget_default m ''status'' d5 = ST"
    and "mget_default m ''created'' d6 = C" and "mget_default m ''created_at'' d7 = CA"
    and "mget_default m ''started_at'' d8 = SA" and "mget_default m ''done_at'' d9 = DA"
    and "mget_default m ''blocked'' d10 = py_str (PBool B)"
    and "mget_default m ''blocked_at'' d11 = BA"
    and "mget_default m ''blocked_reason'' d12 = BR"
    and "mget_default m ''unblocked_at'' d13 = UA"
    and "snd (split_frontmatter (file_text (simple_yaml_dump fm) body)) = py_strip body"
proof -
  have items: "\<forall>kv \<in> set fm. plain_key (fst kv) \<and> snd kv \<noteq> PNone
                     \<and> (\<exists>v. (snd kv = PStr v \<or> (\<exists>b. snd kv = PBool b))
                              \<and> py_str (snd kv) = v \<and> canonical v)"
    using D cT cE cS cP cST cC cCA cSA cDA cBA cBR cUA cD canonical_bool plain_keys
    unfolding fm by (auto simp: field_text_def)
  have ne: "fm \<noteq> []" unfolding fm by simp
  note pd = parse_dump [OF items ne, of body]
  show "snd (split_frontmatter (file_text (simple_yaml_dump fm) body)) = py_strip body"
    by (rule pd(2))
  from D have mm: "map_of m =
     map_of ((if D = PNone then [] else [(''developer'', field_text D)]) @
       [(''title'', T), (''estimate'', E), (''spent_time'', S),
        (''priority'', P), (''status'', ST),
        (''created'', C), (''created_at'', CA), (''started_at'', SA),
        (''done_at'', DA), (''blocked'', py_str (PBool B)), (''blocked_at'', BA),
        (''blocked_reason'', BR), (''unblocked_at'', UA)])"
    unfolding m pd(1) unfolding fm by (auto simp: field_text_def fun_eq_iff)
  show "mget_default m ''title'' d1 = T" "mget_default m ''estimate'' d2 = E"
    "mget_default m ''spent_time'' d3 = S" "mget_default m ''priority'' d4 = P"
    "mget_default m ''status'' d5 = ST"
    "mget_default m ''created'' d6 = C" "mget_default m ''created_at'' d7 = CA"
    "mget_default m ''started_at'' d8 = SA" "mget_default m ''done_at'' d9 = DA"
    "mget_default m ''blocked'' d10 = py_str (PBool B)"
    "mget_default m ''blocked_at'' d11 = BA"
    "mget_default m ''blocked_reason'' d12 = BR"
    "mget_default m ''unblocked_at'' d13 = UA"
    unfolding mget_default_def mm by simp_all
  show "mget m ''developer'' = D"
    using D unfolding mget_def mm by (auto simp: field_text_def)
qed

text \<open>
  C5, as the code has it. The text has a front matter block, every text field of the
  parsed task is canonical, the status does not call for a timestamp the task lacks
  (a task in progress has \<open>started_at\<close>, a finished one has \<open>done_at\<close>), and
  \<open>created_at\<close> is empty only when \<open>created\<close> is. Then parsing the text that the round
  trip writes gives the task parsed from the original text, field by field and with
  the same body, but for \<open>fullContent\<close>, which holds the new text.
\<close>

theorem round_trip_record:
  assumes block: "prefix ''---'' content" "0 < count_str ''---'' (drop 3 content)"
    and canon: "\<forall>k \<in> set text_fields. canonical (field_text (dget (build_task task_id content) k))"
    and started: "dget (build_task task_id content) ''status'' = PStr ''progress''
                  \<or> dget (build_task task_id content) ''status'' = PStr ''inprogress''
                  \<longrightarrow> dget (build_task task_id content) ''started_at'' \<noteq> PStr []"
    and finished: "dget (build_task task_id content) ''status'' = PStr ''done''
                  \<longrightarrow> dget (build_task task_id content) ''done_at'' \<noteq> PStr []"
    and created: "dget (build_task task_id content) ''created_at'' = PStr []
                  \<longrightarrow> dget (build_task task_id content) ''created'' = PStr []"
  shows "build_task task_id (round_trip now task_id content)
         = AList.update ''fullContent'' (PStr (round_trip now task_id content))
             (build_task task_id content)"
proof -
  define m0 where "m0 = parse_yaml (fst (split_frontmatter content))"
  define c where "c = snd (split_frontmatter content)"
  define T where "T = mget_default m0 ''title'' (py_title (replace_char CHR ''-'' CHR '' '' task_id))"
  define E where "E = mget_default m0 ''estimate'' ''0h''"
  define S where "S = mget_default m0 ''spent_time'' ''0h''"
  define P where "P = mget_default m0 ''priority'' ''medium''"
  define D where "D = mget m0 ''developer''"
  define ST where "ST = mget_default m0 ''status'' ''backlog''"
  define C where "C = mget_default m0 ''created'' []"
  define CA where "CA = mget_default m0 ''created_at'' (mget_default m0 ''created'' [])"
  define SA where "SA = mget_default m0 ''started_at'' []"
  define DA where "DA = mget_default m0 ''done_at'' []"
  define B where "B = (py_lower (mget_default m0 ''blocked'' ''false'') \<in> set [''true'', ''yes'', ''1''])"
  define BA where "BA = mget_default m0 ''blocked_at'' []"
  define BR where "BR = mget_default m0 ''blocked_reason'' []"
  define UA where "UA = mget_default m0 ''unblocked_at'' []"
  note defs = m0_def c_def T_def E_def S_def P_def D_def ST_def C_def CA_def SA_def DA_def
    B_def BA_def BR_def UA_def
  have r: "build_task task_id content =
     [(''id'', PStr task_id), (''title'', PStr T), (''content'', PStr c),
      (''fullContent'', PStr content), (''timeEstimate'', PStr E), (''timeSpent'', PStr S),
      (''priority'', PStr P), (''developer'', D), (''assignee'', D), (''status'', PStr ST),
      (''created'', PStr C), (''created_at'', PStr CA), (''started_at'', PStr SA),
      (''done_at'', PStr DA), (''blocked'', PBool B), (''blocked_at'', PStr BA),
      (''blocked_reason'', PStr BR), (''unblocked_at'', PStr UA),
      (''is_currently_blocked'', PBool (B \<and> UA = []))]"
    unfolding defs by (simp add: build_task_def Let_def)
  have Dc: "D = PNone \<or> (\<exists>dv. D = PStr dv)"
    unfolding D_def by (simp add: mget_def split: option.splits)
  from canon have can:
    "canonical T" "canonical E" "canonical S" "canonical P" "canonical (field_text D)"
    "canonical ST" "canonical C" "canonical CA" "canonical SA" "canonical DA"
    "canonical BA" "canonical BR" "canonical UA"
    unfolding r by (simp_all add: text_fields_def dget_def field_text_def)
  from started have st: "ST = ''progress'' \<or> ST = ''inprogress'' \<longrightarrow> SA \<noteq> []"
    unfolding r by (simp add: dget_def)
  from finished have fi: "ST = ''done'' \<longrightarrow> DA \<noteq> []"
    unfolding r by (simp add: dget_def)
  from created have cr: "CA = [] \<longrightarrow> C = []"
    unfolding r by (simp add: dget_def)
  from split_frontmatter_block [OF block] obtain a b where
    "split_frontmatter content = (py_strip a, py_strip b)" by blast
  then have "c = py_strip b" by (simp add: c_def)
  then have cs: "py_strip c = c" by (simp add: py_strip_def strip_where_idem)
  define fm where "fm = filter (\<lambda>kv. snd kv \<noteq> PNone)
       [(''title'', PStr T), (''estimate'', PStr E), (''spent_time'', PStr S),
        (''priority'', PStr P), (''developer'', D), (''status'', PStr ST),
        (''created'', PStr C), (''created_at'', PStr CA), (''started_at'', PStr SA),
        (''done_at'', PStr DA), (''blocked'', PBool B), (''blocked_at'', PStr BA),
        (''blocked_reason'', PStr BR), (''unblocked_at'', PStr UA)]"
  have uf: "update_frontmatter now (build_task task_id content) =
       [(''title'', PStr T), (''estimate'', PStr E), (''spent_time'', PStr S),
        (''priority'', PStr P), (''developer'', D), (''status'', PStr ST),
        (''created'', PStr C), (''created_at'', PStr CA), (''started_at'', PStr SA),
        (''done_at'', PStr DA), (''blocked'', PBool B), (''blocked_at'', PStr BA),
        (''blocked_reason'', PStr BR), (''unblocked_at'', PStr UA)]"
    unfolding r using st fi cr
    by (auto simp: update_frontmatter_def auto_started_at_def auto_done_at_def new_status_of_def
        dget_def dget_default_def py_or_def Let_def)
  have md: "markdown_of (build_task task_id content) = c"
    unfolding r by (simp add: markdown_of_def dget_default_def)
  have dump: "simple_yaml_dump (filter (\<lambda>kv. snd kv \<noteq> PNone) xs) = simple_yaml_dump xs" for xs
    by (simp add: simple_yaml_dump_def)
  have rt: "round_trip now task_id content = file_text (simple_yaml_dump fm) c"
    by (simp add: round_trip_def update_file_content_def uf md fm_def)
  note f = round_trip_fields
    [OF can(1) can(2) can(3) can(4) can(6) can(7) can(8) can(9) can(10) can(11) can(12) can(13)
        can(5) Dc fm_def refl, where body = c]
  have "build_task task_id (file_text (simple_yaml_dump fm) c) =
     [(''id'', PStr task_id), (''title'', PStr T), (''content'', PStr c),
      (''fullContent'', PStr (file_text (simple_yaml_dump fm) c)),
      (''timeEstimate'', PStr E), (''timeSpent'', PStr S),
      (''priority'', PStr P), (''developer'', D), (''assignee'', D), (''status'', PStr ST),
      (''created'', PStr C), (''created_at'', PStr CA), (''started_at'', PStr SA),
      (''done_at'', PStr DA), (''blocked'', PBool B), (''blocked_at'', PStr BA),
      (''blocked_reason'', PStr BR), (''unblocked_at'', PStr UA),
      (''is_currently_blocked'', PBool (B \<and> UA = []))]"
    unfolding build_task_def Let_def f blocked_again cs by simp
  then show ?thesis unfolding rt r by simp
qed

text \<open>
  A task in review, with a title that needs quotes, a developer and \<open>blocked: yes\<close>:
  every field is canonical, and parsing what the round trip wrote gives the same
  task, the full text apart.
\<close>

theorem round_trip_record_witness:
  "prefix ''---'' review_text
   \<and> 0 < count_str ''---'' (drop 3 review_text)
   \<and> list_all (\<lambda>k. canonical (field_text (dget (build_task ''t1'' review_text) k))) text_fields
   \<and> dget (build_task ''t1'' review_text) ''status'' = PStr ''review''
   \<and> dget (build_task ''t1'' review_text) ''created_at'' = PStr []
   \<and> dget (build_task ''t1'' review_text) ''created'' = PStr []
   \<and> dget (build_task ''t1'' review_text) ''title'' = PStr ''Fix: the bug''
   \<and> build_task ''t1'' (round_trip ''2025-01-03T09:00:00'' ''t1'' review_text)
       = AList.update ''fullContent'' (PStr (round_trip ''2025-01-03T09:00:00'' ''t1'' review_text))
           (build_task ''t1'' review_text)"
proof -
  have pre: "prefix ''---'' review_text" by (simp add: review_text_def)
  have cnt: "0 < count_str ''---'' (drop 3 review_text)" by code_simp
  have sf: "split_frontmatter review_text
      = (''title: Fix: the bug\<newline>status: review\<newline>developer: dev-alice\<newline>blocked: yes'',
         ''Body'')"
    by code_simp
  have py: "parse_yaml ''title: Fix: the bug\<newline>status: review\<newline>developer: dev-alice\<newline>blocked: yes''
      = [(''title'', ''Fix: the bug''), (''status'', ''review''), (''developer'', ''dev-alice''),
         (''blocked'', ''yes'')]"
    by code_simp
  have low: "py_lower ''yes'' = ''yes''" by code_simp
  have bt: "build_task ''t1'' review_text =
     [(''id'', PStr ''t1''), (''title'', PStr ''Fix: the bug''), (''content'', PStr ''Body''),
      (''fullContent'', PStr review_text), (''timeEstimate'', PStr ''0h''),
      (''timeSpent'', PStr ''0h''), (''priority'', PStr ''medium''),
      (''developer'', PStr ''dev-alice''), (''assignee'', PStr ''dev-alice''),
      (''status'', PStr ''review''), (''created'', PStr []), (''created_at'', PStr []),
      (''started_at'', PStr []), (''done_at'', PStr []), (''blocked'', PBool True),
      (''blocked_at'', PStr []), (''blocked_reason'', PStr []), (''unblocked_at'', PStr []),
      (''is_currently_blocked'', PBool True)]"
    by (simp add: build_task_def Let_def sf py low mget_default_def mget_def)
  have c: "canonical ''Fix: the bug''" "canonical ''0h''" "canonical ''medium''"
    "canonical ''dev-alice''" "canonical ''review''" "canonical []"
    by code_simp+
  have can: "\<forall>k \<in> set text_fields.
      canonical (field_text (dget (build_task ''t1'' review_text) k))"
    unfolding bt using c by (simp add: text_fields_def dget_def field_text_def)
  have st: "dget (build_task ''t1'' review_text) ''status'' = PStr ''review''"
    and ca: "dget (build_task ''t1'' review_text) ''created_at'' = PStr []"
    and cr: "dget (build_task ''t1'' review_text) ''created'' = PStr []"
    and ti: "dget (build_task ''t1'' review_text) ''title'' = PStr ''Fix: the bug''"
    unfolding bt by (simp_all add: dget_def)
  have h1: "dget (build_task ''t1'' review_text) ''status'' = PStr ''progress''
        \<or> dget (build_task ''t1'' review_text) ''status'' = PStr ''inprogress''
        \<longrightarrow> dget (build_task ''t1'' review_text) ''started_at'' \<noteq> PStr []"
    by (simp add: st)
  have h2: "dget (build_task ''t1'' review_text) ''status'' = PStr ''done''
        \<longrightarrow> dget (build_task ''t1'' review_text) ''done_at'' \<noteq> PStr []"
    by (simp add: st)
  have h3: "dget (build_task ''t1'' review_text) ''created_at'' = PStr []
        \<longrightarrow> dget (build_task ''t1'' review_text) ''created'' = PStr []"
    by (simp add: cr)
  note rt = round_trip_record [OF pre cnt can h1 h2 h3, of "''2025-01-03T09:00:00''"]
  from can have "list_all (\<lambda>k. canonical (field_text (dget (build_task ''t1'' review_text) k)))
      text_fields"
    by (simp add: list_all_iff)
  with pre cnt st ca cr ti rt show ?thesis by simp
qed

text \<open>
  C5 as stated fails. A finished task whose file has no \<open>done_at\<close> comes back from
  the round trip with \<open>done_at\<close> set to the time of the call, a key and value the
  file did not have. And a title written with blanks inside its quotes comes back
  without them.
\<close>

theorem round_trip_counterexample:
  "prefix ''---'' done_text
   \<and> 0 < count_str ''---'' (drop 3 done_text)
   \<and> map_of (parse_yaml (fst (split_frontmatter done_text))) ''done_at'' = None
   \<and> map_of (parse_yaml (fst (split_frontmatter
                (round_trip ''2025-01-03T09:00:00'' ''t1'' done_text)))) ''done_at''
       = Some ''2025-01-03T09:00:00''
   \<and> dget (build_task ''t1'' done_text) ''done_at'' = PStr []
   \<and> dget (build_task ''t1'' (round_trip ''2025-01-03T09:00:00'' ''t1'' done_text)) ''done_at''
       = PStr ''2025-01-03T09:00:00''
   \<and> prefix ''---'' padded_text
   \<and> 0 < count_str ''---'' (drop 3 padded_text)
   \<and> dget (build_task ''t1'' padded_text) ''title'' = PStr '' padded ''
   \<and> dget (build_task ''t1'' (round_trip ''2025-01-03T09:00:00'' ''t1'' padded_text)) ''title''
       = PStr ''padded''"
proof -
  have pre: "prefix ''---'' done_text" "prefix ''---'' padded_text"
    by (simp_all add: done_text_def padded_text_def)
  have cnt: "0 < count_str ''---'' (drop 3 done_text)" "0 < count_str ''---'' (drop 3 padded_text)"
    by code_simp+
  have sf: "split_frontmatter done_text = (''title: Ship it\<newline>status: done'', ''Body'')"
    by code_simp
  have py: "parse_yaml ''title: Ship it\<newline>status: done''
      = [(''title'', ''Ship it''), (''status'', ''done'')]"
    by code_simp
  have low: "py_lower ''false'' = ''false''" "py_lower ''False'' = ''false''" by code_simp+
  have bt: "build_task ''t1'' done_text =
     [(''id'', PStr ''t1''), (''title'', PStr ''Ship it''), (''content'', PStr ''Body''),
      (''fullContent'', PStr done_text), (''timeEstimate'', PStr ''0h''),
      (''timeSpent'', PStr ''0h''), (''priority'', PStr ''medium''),
      (''developer'', PNone), (''assignee'', PNone),
      (''status'', PStr ''done''), (''created'', PStr []), (''created_at'', PStr []),
      (''started_at'', PStr []), (''done_at'', PStr []), (''blocked'', PBool False),
      (''blocked_at'', PStr []), (''blocked_reason'', PStr []), (''unblocked_at'', PStr []),
      (''is_currently_blocked'', PBool False)]"
    by (simp add: build_task_def Let_def sf py low mget_default_def mget_def)
  have m: "parse_yaml (fst (split_frontmatter
                (round_trip ''2025-01-03T09:00:00'' ''t1'' done_text)))
      = [(''title'', ''Ship it''), (''estimate'', ''0h''), (''spent_time'', ''0h''),
         (''priority'', ''medium''), (''status'', ''done''), (''created'', []),
         (''created_at'', []), (''started_at'', []), (''done_at'', ''2025-01-03T09:00:00''),
         (''blocked'', ''False''), (''blocked_at'', []), (''blocked_reason'', []),
         (''unblocked_at'', [])]"
    unfolding round_trip_def bt by code_simp
  have d0: "map_of (parse_yaml (fst (split_frontmatter done_text))) ''done_at'' = None"
    by (simp add: sf py)
  have d1: "dget (build_task ''t1'' done_text) ''done_at'' = PStr []"
    unfolding bt by (simp add: dget_def)
  have d2: "dget (build_task ''t1'' (round_trip ''2025-01-03T09:00:00'' ''t1'' done_text)) ''done_at''
       = PStr ''2025-01-03T09:00:00''"
    by (simp add: build_task_def Let_def m dget_def mget_default_def)
  have sf': "split_frontmatter padded_text = ([CHR ''t'', CHR ''i'', CHR ''t'', CHR ''l'', CHR ''e'',
        CHR '':'', CHR '' '', CHR 0x22, CHR '' '', CHR ''p'', CHR ''a'', CHR ''d'', CHR ''d'',
        CHR ''e'', CHR ''d'', CHR '' '', CHR 0x22], ''Body'')"
    by code_simp
  have py': "parse_yaml [CHR ''t'', CHR ''i'', CHR ''t'', CHR ''l'', CHR ''e'',
        CHR '':'', CHR '' '', CHR 0x22, CHR '' '', CHR ''p'', CHR ''a'', CHR ''d'', CHR ''d'',
        CHR ''e'', CHR ''d'', CHR '' '', CHR 0x22] = [(''title'', '' padded '')]"
    by code_simp
  have bt': "build_task ''t1'' padded_text =
     [(''id'', PStr ''t1''), (''title'', PStr '' padded ''), (''content'', PStr ''Body''),
      (''fullContent'', PStr padded_text), (''timeEstimate'', PStr ''0h''),
      (''timeSpent'', PStr ''0h''), (''priority'', PStr ''medium''),
      (''developer'', PNone), (''assignee'', PNone),
      (''status'', PStr ''backlog''), (''created'', PStr []), (''created_at'', PStr []),
      (''started_at'', PStr []), (''done_at'', PStr []), (''blocked'', PBool False),
      (''blocked_at'', PStr []), (''blocked_reason'', PStr []), (''unblocked_at'', PStr []),
      (''is_currently_blocked'', PBool False)]"
    by (simp add: build_task_def Let_def sf' py' low mget_default_def mget_def)
  have m': "map_of (parse_yaml (fst (split_frontmatter
                (round_trip ''2025-01-03T09:00:00'' ''t1'' padded_text)))) ''title''
      = Some ''padded''"
    unfolding round_trip_def bt' by code_simp
  have t1: "dget (build_task ''t1'' padded_text) ''title'' = PStr '' padded ''"
    unfolding bt' by (simp add: dget_def)
  have t2: "dget (build_task ''t1'' (round_trip ''2025-01-03T09:00:00'' ''t1'' padded_text)) ''title''
       = PStr ''padded''"
    by (simp add: build_task_def Let_def m' dget_def mget_default_def)
  from pre cnt d0 m d1 d2 t1 t2 show ?thesis by simp
qed

end
